theory Spec2Isabelle
  imports Main "HOL-Library.Char_ord" "HOL-Library.List_Lexorder"
begin

section \<open>SmartPill backend: dose resolution, dose actions, voice intents, compliance\<close>

text \<open>
  A shallow embedding of \<^verbatim>\<open>main.py\<close>. Python strings are \<open>string\<close> (ASCII), Python
  integers are \<open>int\<close>, every exception the code can raise is a value of \<open>error\<close>, and the
  clock (\<^verbatim>\<open>datetime.now(timezone.utc)\<close>) is an argument of each endpoint. All datetimes
  are aware datetimes in UTC, as \<^verbatim>\<open>datetime.now(timezone.utc)\<close> makes them.
\<close>

subsection \<open>Strings\<close>

text \<open>\<^verbatim>\<open>str.lower\<close>, \<^verbatim>\<open>str.strip\<close>, \<^verbatim>\<open>str.split(sep)\<close>, \<^verbatim>\<open>str.startswith\<close> and
  \<^verbatim>\<open>sub in s\<close> on ASCII strings.\<close>

definition is_space :: "char \<Rightarrow> bool" where
  "is_space c = (c \<in> set [CHR 0x09, CHR 0x0A, CHR 0x0B, CHR 0x0C, CHR 0x0D,
                            CHR 0x1C, CHR 0x1D, CHR 0x1E, CHR 0x1F, CHR 0x20])"

definition strip :: "string \<Rightarrow> string" where
  "strip s = rev (dropWhile is_space (rev (dropWhile is_space s)))"

definition lower_char :: "char \<Rightarrow> char" where
  "lower_char c = (if CHR ''A'' \<le> c \<and> c \<le> CHR ''Z'' then char_of (of_char c + (32::nat)) else c)"

definition lower :: "string \<Rightarrow> string" where
  "lower s = map lower_char s"

fun split :: "char \<Rightarrow> string \<Rightarrow> string list" where
  "split sep [] = [[]]"
| "split sep (c # cs) =
     (if c = sep then [] # split sep cs
      else (case split sep cs of [] \<Rightarrow> [[c]] | p # ps \<Rightarrow> (c # p) # ps))"

definition startswith :: "string \<Rightarrow> string \<Rightarrow> bool" where
  "startswith s p = (take (length p) s = p)"

fun str_contains :: "string \<Rightarrow> string \<Rightarrow> bool" where
  "str_contains [] sub = (sub = [])"
| "str_contains (c # cs) sub = (startswith (c # cs) sub \<or> str_contains cs sub)"

subsection \<open>Integers read from and written to strings\<close>

definition is_digit :: "char \<Rightarrow> bool" where
  "is_digit c = (CHR ''0'' \<le> c \<and> c \<le> CHR ''9'')"

definition digit_val :: "char \<Rightarrow> int" where
  "digit_val c = int (of_char c) - 48"

text \<open>The digits of a decimal literal as \<^verbatim>\<open>int(str)\<close> reads them: at least one digit, single
  underscores allowed between digits. The flag says that the previous character was a digit.\<close>

fun int_digits :: "int \<Rightarrow> bool \<Rightarrow> string \<Rightarrow> int option" where
  "int_digits acc prev [] = (if prev then Some acc else None)"
| "int_digits acc prev (c # cs) =
     (if is_digit c then int_digits (acc * 10 + digit_val c) True cs
      else if c = CHR ''_'' \<and> prev then int_digits acc False cs
      else None)"

text \<open>\<^verbatim>\<open>int(s)\<close> on an ASCII string: the whitespace of C's \<^verbatim>\<open>isspace\<close> around the
  literal is dropped (tab, line feed, vertical tab, form feed, carriage return and space, not
  the separators 0x1C to 0x1F that \<^verbatim>\<open>str.strip\<close> drops), one sign is allowed, and a literal
  of more than 4300 digits is refused; \<open>None\<close> is the \<^verbatim>\<open>ValueError\<close>.\<close>

definition is_c_space :: "char \<Rightarrow> bool" where
  "is_c_space c = (c \<in> set [CHR 0x09, CHR 0x0A, CHR 0x0B, CHR 0x0C, CHR 0x0D, CHR 0x20])"

definition MAX_STR_DIGITS :: nat where
  "MAX_STR_DIGITS = 4300"

definition py_int :: "string \<Rightarrow> int option" where
  "py_int s =
     (case rev (dropWhile is_c_space (rev (dropWhile is_c_space s))) of
        [] \<Rightarrow> None
      | c # cs \<Rightarrow>
          let body = (if c = CHR ''-'' \<or> c = CHR ''+'' then cs else c # cs)
          in if MAX_STR_DIGITS < length (filter is_digit body) then None
             else if c = CHR ''-'' then map_option uminus (int_digits 0 False body)
             else int_digits 0 False body)"

definition digit_char :: "nat \<Rightarrow> char" where
  "digit_char n = char_of (48 + n mod 10)"

text \<open>\<^verbatim>\<open>%02d\<close>, \<^verbatim>\<open>%04d\<close> and \<^verbatim>\<open>%06d\<close> on the fields of a date or time, which fit the width.\<close>

definition pad2 :: "int \<Rightarrow> string" where
  "pad2 n = [digit_char (nat n div 10), digit_char (nat n)]"

definition pad4 :: "int \<Rightarrow> string" where
  "pad4 n = [digit_char (nat n div 1000), digit_char (nat n div 100),
             digit_char (nat n div 10), digit_char (nat n)]"

definition pad6 :: "int \<Rightarrow> string" where
  "pad6 n = [digit_char (nat n div 100000), digit_char (nat n div 10000),
             digit_char (nat n div 1000), digit_char (nat n div 100),
             digit_char (nat n div 10), digit_char (nat n)]"

text \<open>\<^verbatim>\<open>f"{m}"\<close> for a non-negative integer.\<close>

fun str_nat :: "nat \<Rightarrow> string" where
  "str_nat n = (if n < 10 then [digit_char n] else str_nat (n div 10) @ [digit_char n])"

text \<open>A run of exactly the given decimal digits, as \<^verbatim>\<open>fromisoformat\<close> reads a field.\<close>

definition field_val :: "string \<Rightarrow> int option" where
  "field_val s = (if s \<noteq> [] \<and> list_all is_digit s
                  then Some (foldl (\<lambda>acc c. acc * 10 + digit_val c) 0 s) else None)"

subsection \<open>Dates and datetimes\<close>

text \<open>
  A date is its proleptic Gregorian ordinal (\<^verbatim>\<open>date.toordinal()\<close>, day 1 is 0001-01-01),
  the number Python's own date arithmetic and \<^verbatim>\<open>weekday()\<close> go through; a datetime is
  the ordinal of its UTC date and its time of day.
\<close>

record datetime =
  dt_day :: int
  dt_hour :: int
  dt_minute :: int
  dt_second :: int
  dt_microsecond :: int

definition MAXORDINAL :: int where
  "MAXORDINAL = 3652059"

definition is_leap :: "int \<Rightarrow> bool" where
  "is_leap year = (year mod 4 = 0 \<and> (year mod 400 = 0 \<or> year mod 100 \<noteq> 0))"

definition days_before_year :: "int \<Rightarrow> int" where
  "days_before_year year =
     (let y = year - 1 in y * 365 + y div 4 - y div 100 + y div 400)"

definition DAYS_IN_MONTH :: "int list" where
  "DAYS_IN_MONTH = [-1, 31, 28, 31, 30, 31, 30, 31, 31, 30, 31, 30, 31]"

definition DAYS_BEFORE_MONTH :: "int list" where
  "DAYS_BEFORE_MONTH = [-1, 0, 31, 59, 90, 120, 151, 181, 212, 243, 273, 304, 334]"

definition days_in_month :: "int \<Rightarrow> int \<Rightarrow> int" where
  "days_in_month year month =
     (if month = 2 \<and> is_leap year then 29 else DAYS_IN_MONTH ! nat month)"

definition days_before_month :: "int \<Rightarrow> int \<Rightarrow> int" where
  "days_before_month year month =
     DAYS_BEFORE_MONTH ! nat month + (if month > 2 \<and> is_leap year then 1 else 0)"

definition ymd2ord :: "int \<Rightarrow> int \<Rightarrow> int \<Rightarrow> int" where
  "ymd2ord year month day = days_before_year year + days_before_month year month + day"

text \<open>\<^verbatim>\<open>_ord2ymd\<close> of the standard library: year, month and day of an ordinal.\<close>

definition ord2ymd :: "int \<Rightarrow> int \<times> int \<times> int" where
  "ord2ymd n0 =
     (let n = n0 - 1;
          n400 = n div 146097; n = n mod 146097;
          n100 = n div 36524; n = n mod 36524;
          n4 = n div 1461; n = n mod 1461;
          n1 = n div 365; n = n mod 365;
          year = n400 * 400 + 1 + n100 * 100 + n4 * 4 + n1
      in if n1 = 4 \<or> n100 = 4 then (year - 1, 12, 31)
         else
           let leapyear = (n1 = 3 \<and> (n100 = 3 \<or> n4 \<noteq> 24));
               month = (n + 50) div 32;
               preceding = DAYS_BEFORE_MONTH ! nat month + (if month > 2 \<and> leapyear then 1 else 0)
           in if preceding > n
              then (let month' = month - 1;
                        preceding' = preceding - (DAYS_IN_MONTH ! nat month'
                                       + (if month' = 2 \<and> leapyear then 1 else 0))
                    in (year, month', n - preceding' + 1))
              else (year, month, n - preceding + 1))"

definition weekday :: "datetime \<Rightarrow> int" where
  "weekday now = (dt_day now + 6) mod 7"

definition date_isoformat :: "int \<Rightarrow> string" where
  "date_isoformat d =
     (case ord2ymd d of (y, m, dd) \<Rightarrow> pad4 y @ ''-'' @ pad2 m @ ''-'' @ pad2 dd)"

definition isoformat :: "datetime \<Rightarrow> string" where
  "isoformat t =
     date_isoformat (dt_day t) @ ''T'' @ pad2 (dt_hour t) @ '':'' @ pad2 (dt_minute t) @ '':''
       @ pad2 (dt_second t)
       @ (if dt_microsecond t = 0 then [] else ''.'' @ pad6 (dt_microsecond t))
       @ ''+00:00''"

text \<open>
  \<^verbatim>\<open>datetime.fromisoformat\<close> on the strings \<open>isoformat\<close> writes:
  \<^verbatim>\<open>YYYY-MM-DD?HH:MM:SS[.ffffff]+00:00\<close>, with the range checks of the datetime
  constructor. \<open>None\<close> is the \<^verbatim>\<open>ValueError\<close>. It is applied only to the
  \<^verbatim>\<open>scheduled_at\<close> of the entries of \<open>get_todays_doses\<close>, which \<open>isoformat\<close> wrote; the
  strings of the store are read by a parameter of the calendar instead.
\<close>

definition parse_date :: "string \<Rightarrow> int option" where
  "parse_date s =
     (if length s = 10 \<and> s ! 4 = CHR ''-'' \<and> s ! 7 = CHR ''-'' then
        (case (field_val (take 4 s), field_val (take 2 (drop 5 s)), field_val (drop 8 s)) of
           (Some y, Some m, Some d) \<Rightarrow>
             if 1 \<le> y \<and> y \<le> 9999 \<and> 1 \<le> m \<and> m \<le> 12 \<and> 1 \<le> d \<and> d \<le> days_in_month y m
             then Some (ymd2ord y m d) else None
         | _ \<Rightarrow> None)
      else None)"

definition parse_clock :: "string \<Rightarrow> (int \<times> int \<times> int \<times> int) option" where
  "parse_clock s =
     (if (length s = 8 \<or> length s = 15 \<and> s ! 8 = CHR ''.'')
         \<and> s ! 2 = CHR '':'' \<and> s ! 5 = CHR '':'' then
        (case (field_val (take 2 s), field_val (take 2 (drop 3 s)), field_val (take 2 (drop 6 s)),
               if length s = 8 then Some 0 else field_val (drop 9 s)) of
           (Some h, Some m, Some sec, Some us) \<Rightarrow>
             if h \<le> 23 \<and> m \<le> 59 \<and> sec \<le> 59 then Some (h, m, sec, us) else None
         | _ \<Rightarrow> None)
      else None)"

definition fromisoformat :: "string \<Rightarrow> datetime option" where
  "fromisoformat s =
     (if length s < 25 then None
      else if drop (length s - 6) s = ''+00:00'' then
        (case (parse_date (take 10 s), parse_clock (drop 11 (take (length s - 6) s))) of
           (Some d, Some (h, m, sec, us)) \<Rightarrow>
             Some \<lparr>dt_day = d, dt_hour = h, dt_minute = m, dt_second = sec, dt_microsecond = us\<rparr>
         | _ \<Rightarrow> None)
      else None)"

subsection \<open>Errors\<close>

datatype error = ValueError | OverflowError | HTTPException int

text \<open>
  \<^verbatim>\<open>dt.replace(hour=hour, minute=minute, second=0, microsecond=0)\<close>: the arguments are
  converted to C integers first (\<^verbatim>\<open>OverflowError\<close>), then the constructor checks
  \<^verbatim>\<open>0 <= hour <= 23\<close> and \<^verbatim>\<open>0 <= minute <= 59\<close> (\<^verbatim>\<open>ValueError\<close>).
\<close>

definition c_int :: "int \<Rightarrow> bool" where
  "c_int n = (- 2147483648 \<le> n \<and> n \<le> 2147483647)"

definition dt_replace :: "datetime \<Rightarrow> int \<Rightarrow> int \<Rightarrow> error + datetime" where
  "dt_replace t hour minute =
     (if c_int hour \<and> c_int minute then
        (if 0 \<le> hour \<and> hour \<le> 23 \<and> 0 \<le> minute \<and> minute \<le> 59
         then Inr (t\<lparr>dt_hour := hour, dt_minute := minute, dt_second := 0, dt_microsecond := 0\<rparr>)
         else Inl ValueError)
      else Inl OverflowError)"

text \<open>Datetime arithmetic goes through the microseconds since the start of day 0.\<close>

definition dt_micros :: "datetime \<Rightarrow> int" where
  "dt_micros t =
     (((dt_day t * 24 + dt_hour t) * 60 + dt_minute t) * 60 + dt_second t) * 1000000
       + dt_microsecond t"

definition of_micros :: "int \<Rightarrow> datetime" where
  "of_micros us =
     \<lparr>dt_day = us div 86400000000,
      dt_hour = us mod 86400000000 div 3600000000,
      dt_minute = us mod 3600000000 div 60000000,
      dt_second = us mod 60000000 div 1000000,
      dt_microsecond = us mod 1000000\<rparr>"

text \<open>\<^verbatim>\<open>t + timedelta(minutes=m)\<close>; a result outside 0001-01-01 .. 9999-12-31 is an
  \<^verbatim>\<open>OverflowError\<close>.\<close>

definition add_minutes :: "datetime \<Rightarrow> int \<Rightarrow> error + datetime" where
  "add_minutes t m =
     (let r = of_micros (dt_micros t + m * 60000000)
      in if 0 < dt_day r \<and> dt_day r \<le> MAXORDINAL then Inr r else Inl OverflowError)"

subsection \<open>Documents and the store\<close>

text \<open>The \<^verbatim>\<open>medication\<close> documents, as \<^verbatim>\<open>add_medication\<close> writes them from a validated
  \<^verbatim>\<open>MedicationIn\<close>; \<open>med_id\<close> is \<^verbatim>\<open>str(m.get("_id"))\<close>.\<close>

record medication =
  med_id :: string
  med_user_id :: string
  med_name :: string
  med_dosage :: string
  med_pill_image_url :: "string option"
  med_days_of_week :: "int list"
  med_times :: "string list"

text \<open>The \<^verbatim>\<open>doselog\<close> documents (\<^verbatim>\<open>DoseLog\<close> of \<^verbatim>\<open>schemas.py\<close>). A field that a document
  does not have is \<open>None\<close>; \<^verbatim>\<open>scheduled_at\<close> is a datetime, a string, or anything else.\<close>

datatype sched_value = SchedDatetime datetime | SchedString string | SchedOther

record doselog =
  log_user_id :: string
  log_medication_id :: string
  log_scheduled_at :: sched_value
  log_status :: "string option"
  log_taken_at :: "datetime option"
  log_snooze_until :: "datetime option"
  log_updated_at :: "datetime option"

record database =
  db_medication :: "medication list"
  db_doselog :: "doselog list"

text \<open>\<^verbatim>\<open>collection(name)\<close>: an unconfigured database is an HTTP 500.\<close>

definition collection :: "database option \<Rightarrow> error + database" where
  "collection db = (case db of None \<Rightarrow> Inl (HTTPException 500) | Some d \<Rightarrow> Inr d)"

text \<open>
  Modelled from the spec: the Dose Status Store (module \<^verbatim>\<open>database\<close> and the collections it
  hands out are not among the sources). A collection is the list of its documents in
  insertion order. \<open>find_one\<close> is the lookup by exact key (user, medication id, scheduled
  instant) and gives the first match; \<open>update_one\<close> is the upsert
  \<^verbatim>\<open>update_one(q, {"$set": fields}, upsert=True)\<close>: it sets the fields on the first
  document matching the key, and inserts the key with the fields when none matches.
\<close>

definition key_matches :: "string \<Rightarrow> string \<Rightarrow> datetime \<Rightarrow> doselog \<Rightarrow> bool" where
  "key_matches user_id medication_id scheduled_at lg =
     (log_user_id lg = user_id \<and> log_medication_id lg = medication_id
      \<and> log_scheduled_at lg = SchedDatetime scheduled_at)"

definition find_one :: "doselog list \<Rightarrow> string \<Rightarrow> string \<Rightarrow> datetime \<Rightarrow> doselog option" where
  "find_one logs user_id medication_id scheduled_at =
     List.find (key_matches user_id medication_id scheduled_at) logs"

definition key_document :: "string \<Rightarrow> string \<Rightarrow> datetime \<Rightarrow> doselog" where
  "key_document user_id medication_id scheduled_at =
     \<lparr>log_user_id = user_id, log_medication_id = medication_id,
      log_scheduled_at = SchedDatetime scheduled_at, log_status = None, log_taken_at = None,
      log_snooze_until = None, log_updated_at = None\<rparr>"

fun update_one ::
  "string \<Rightarrow> string \<Rightarrow> datetime \<Rightarrow> (doselog \<Rightarrow> doselog) \<Rightarrow> doselog list \<Rightarrow> doselog list" where
  "update_one user_id medication_id scheduled_at set_fields [] =
     [set_fields (key_document user_id medication_id scheduled_at)]"
| "update_one user_id medication_id scheduled_at set_fields (lg # logs) =
     (if key_matches user_id medication_id scheduled_at lg then set_fields lg # logs
      else lg # update_one user_id medication_id scheduled_at set_fields logs)"

subsection \<open>Today's doses\<close>

text \<open>An element of the list \<^verbatim>\<open>get_todays_doses\<close> returns.\<close>

record dose =
  dose_medication_id :: string
  dose_name :: string
  dose_dosage :: string
  dose_pill_image_url :: "string option"
  dose_scheduled_at :: string
  dose_status :: "string option"

text \<open>
  \<^verbatim>\<open>hour, minute = map(int, t.split(":"))\<close> inside \<^verbatim>\<open>try\<close>: any exception (a part that is
  no integer, fewer or more than two parts) skips the entry, which is \<open>None\<close> here.
\<close>

definition parse_time :: "string \<Rightarrow> (int \<times> int) option" where
  "parse_time t =
     (case split CHR '':'' t of
        [a, b] \<Rightarrow>
          (case py_int a of
             None \<Rightarrow> None
           | Some hour \<Rightarrow> (case py_int b of None \<Rightarrow> None | Some minute \<Rightarrow> Some (hour, minute)))
      | _ \<Rightarrow> None)"

text \<open>The lookup of the log and the entry appended to \<^verbatim>\<open>due\<close> (lines 77 to 90).\<close>

definition dose_entry :: "database \<Rightarrow> string \<Rightarrow> medication \<Rightarrow> datetime \<Rightarrow> dose" where
  "dose_entry db user_id m sched_dt =
     (let log = find_one (db_doselog db) user_id (med_id m) sched_dt;
          status = (case log of None \<Rightarrow> Some ''pending'' | Some lg \<Rightarrow> log_status lg)
      in \<lparr>dose_medication_id = med_id m, dose_name = med_name m, dose_dosage = med_dosage m,
          dose_pill_image_url = med_pill_image_url m, dose_scheduled_at = isoformat sched_dt,
          dose_status = status\<rparr>)"

text \<open>The body of \<^verbatim>\<open>for t in times\<close> (lines 70 to 90): \<^verbatim>\<open>replace\<close> stands after the
  \<^verbatim>\<open>try\<close>, so what it raises leaves the function.\<close>

fun times_loop ::
  "database \<Rightarrow> string \<Rightarrow> datetime \<Rightarrow> medication \<Rightarrow> string list \<Rightarrow> dose list \<Rightarrow> error + dose list" where
  "times_loop db user_id now m [] due = Inr due"
| "times_loop db user_id now m (t # ts) due =
     (case parse_time t of
        None \<Rightarrow> times_loop db user_id now m ts due
      | Some (hour, minute) \<Rightarrow>
          (case dt_replace now hour minute of
             Inl e \<Rightarrow> Inl e
           | Inr sched_dt \<Rightarrow>
               times_loop db user_id now m ts (due @ [dose_entry db user_id m sched_dt])))"

text \<open>The body of \<^verbatim>\<open>for m in meds\<close> (lines 64 to 90).\<close>

fun meds_loop ::
  "database \<Rightarrow> string \<Rightarrow> datetime \<Rightarrow> medication list \<Rightarrow> dose list \<Rightarrow> error + dose list" where
  "meds_loop db user_id now [] due = Inr due"
| "meds_loop db user_id now (m # ms) due =
     (if weekday now \<notin> set (med_days_of_week m) then meds_loop db user_id now ms due
      else (case times_loop db user_id now m (med_times m) due of
              Inl e \<Rightarrow> Inl e
            | Inr due' \<Rightarrow> meds_loop db user_id now ms due'))"

definition get_todays_doses :: "database option \<Rightarrow> string \<Rightarrow> datetime \<Rightarrow> error + dose list" where
  "get_todays_doses db user_id now =
     (case collection db of
        Inl e \<Rightarrow> Inl e
      | Inr d \<Rightarrow>
          (case meds_loop d user_id now
                  (filter (\<lambda>m. med_user_id m = user_id) (db_medication d)) [] of
             Inl e \<Rightarrow> Inl e
           | Inr due \<Rightarrow>
               Inr (filter (\<lambda>x. startswith (dose_scheduled_at x) (date_isoformat (dt_day now)))
                      (sort_key dose_scheduled_at due))))"

subsection \<open>Take and snooze\<close>

record take_action_in =
  ta_user_id :: string
  ta_medication_id :: string
  ta_scheduled_at :: datetime

text \<open>\<^verbatim>\<open>mark_taken\<close> reads the clock twice: for \<^verbatim>\<open>taken_at\<close>, then for \<^verbatim>\<open>updated_at\<close>.\<close>

definition mark_taken ::
  "database option \<Rightarrow> take_action_in \<Rightarrow> datetime \<Rightarrow> datetime \<Rightarrow> error + database \<times> bool" where
  "mark_taken db payload now1 now2 =
     (case collection db of
        Inl e \<Rightarrow> Inl e
      | Inr d \<Rightarrow>
          Inr (d\<lparr>db_doselog :=
                   update_one (ta_user_id payload) (ta_medication_id payload) (ta_scheduled_at payload)
                     (\<lambda>lg. lg\<lparr>log_status := Some ''taken'', log_taken_at := Some now1,
                               log_updated_at := Some now2\<rparr>)
                     (db_doselog d)\<rparr>,
               True))"

record snooze_in =
  sn_user_id :: string
  sn_medication_id :: string
  sn_scheduled_at :: datetime
  sn_minutes :: int

text \<open>\<^verbatim>\<open>snooze\<close> reads the clock twice: for \<^verbatim>\<open>until\<close>, then for \<^verbatim>\<open>updated_at\<close>. It returns
  the new store and the \<^verbatim>\<open>snooze_until\<close> of its response.\<close>

definition snooze ::
  "database option \<Rightarrow> snooze_in \<Rightarrow> datetime \<Rightarrow> datetime \<Rightarrow> error + database \<times> string" where
  "snooze db payload now1 now2 =
     (case add_minutes now1 (sn_minutes payload) of
        Inl e \<Rightarrow> Inl e
      | Inr until \<Rightarrow>
          (case collection db of
             Inl e \<Rightarrow> Inl e
           | Inr d \<Rightarrow>
               Inr (d\<lparr>db_doselog :=
                        update_one (sn_user_id payload) (sn_medication_id payload)
                          (sn_scheduled_at payload)
                          (\<lambda>lg. lg\<lparr>log_status := Some ''snoozed'', log_snooze_until := Some until,
                                    log_updated_at := Some now2\<rparr>)
                          (db_doselog d)\<rparr>,
                    isoformat until)))"

subsection \<open>Voice commands\<close>

record voice_command_in =
  vc_text :: string
  vc_user_id :: string

definition is_pending :: "dose \<Rightarrow> bool" where
  "is_pending d = (dose_status d = Some ''pending'' \<or> dose_status d = Some ''snoozed'')"

text \<open>
  \<^verbatim>\<open>abs(int((dt - now).total_seconds() // 60))\<close>: the signed difference is floored to whole
  minutes, then its absolute value is taken. The floats involved are exact for datetimes less
  than a day apart, which is what \<open>get_todays_doses\<close> hands over; \<open>None\<close> is the
  \<^verbatim>\<open>ValueError\<close> of \<^verbatim>\<open>fromisoformat\<close>.
\<close>

definition minutes_from_now :: "datetime \<Rightarrow> dose \<Rightarrow> int option" where
  "minutes_from_now now d =
     (case fromisoformat (dose_scheduled_at d) of
        None \<Rightarrow> None
      | Some dt \<Rightarrow> Some (abs ((dt_micros dt - dt_micros now) div 60000000)))"

text \<open>\<^verbatim>\<open>pending.sort(key=minutes_from_now)\<close>: a stable sort, unless a key raises.\<close>

definition sort_pending :: "datetime \<Rightarrow> dose list \<Rightarrow> error + dose list" where
  "sort_pending now pending =
     (if list_all (\<lambda>d. minutes_from_now now d \<noteq> None) pending
      then Inr (sort_key (\<lambda>d. the (minutes_from_now now d)) pending)
      else Inl ValueError)"

text \<open>The loop over the minute ladder (lines 175 to 178): the first \<open>m\<close> whose decimal
  text occurs in the command wins.\<close>

fun ladder :: "nat list \<Rightarrow> string \<Rightarrow> nat \<Rightarrow> nat" where
  "ladder [] text_lower minutes = minutes"
| "ladder (m # ms) text_lower minutes =
     (if str_contains text_lower (str_nat m) then m else ladder ms text_lower minutes)"

definition reminder_minutes :: "string \<Rightarrow> nat" where
  "reminder_minutes text_lower = ladder [5, 10, 15, 20, 30, 45, 60] text_lower 15"

definition is_query :: "string \<Rightarrow> bool" where
  "is_query text_lower =
     (str_contains text_lower ''what''
      \<and> (str_contains text_lower ''medicine'' \<or> str_contains text_lower ''medication''
           \<or> str_contains text_lower ''take now''))"

definition is_reminder :: "string \<Rightarrow> bool" where
  "is_reminder text_lower =
     (startswith text_lower ''remind'' \<and> str_contains text_lower ''minute'')"

text \<open>The query branch (lines 158 to 170).\<close>

definition voice_query :: "database option \<Rightarrow> voice_command_in \<Rightarrow> datetime \<Rightarrow> error + string" where
  "voice_query db cmd now =
     (case get_todays_doses db (vc_user_id cmd) now of
        Inl e \<Rightarrow> Inl e
      | Inr doses \<Rightarrow>
          let pending = filter is_pending doses
          in if pending = [] then Inr ''You have no medication due right now.''
             else (case sort_pending now pending of
                     Inl e \<Rightarrow> Inl e
                   | Inr pending' \<Rightarrow>
                       let top = hd pending'
                       in Inr (''It's medication time. Please take '' @ dose_dosage top
                                 @ '' of '' @ dose_name top @ ''.'')))"

text \<open>The reminder branch (lines 173 to 194); it returns the store as it leaves it.\<close>

definition voice_remind ::
  "database option \<Rightarrow> voice_command_in \<Rightarrow> string \<Rightarrow> datetime
     \<Rightarrow> error + database option \<times> string" where
  "voice_remind db cmd text_lower now =
     (let minutes = reminder_minutes text_lower
      in case get_todays_doses db (vc_user_id cmd) now of
           Inl e \<Rightarrow> Inl e
         | Inr doses \<Rightarrow>
             let pending = filter is_pending doses
             in if pending = []
                then Inr (db, ''Okay, I'll remind you in '' @ str_nat minutes
                                @ '' minutes, but there is nothing due right now.'')
                else
                  let top = hd pending
                  in (case add_minutes now (int minutes) of
                        Inl e \<Rightarrow> Inl e
                      | Inr until \<Rightarrow>
                          (case collection db of
                             Inl e \<Rightarrow> Inl e
                           | Inr d \<Rightarrow>
                               (case fromisoformat (dose_scheduled_at top) of
                                  None \<Rightarrow> Inl ValueError
                                | Some scheduled_at \<Rightarrow>
                                    Inr (Some (d\<lparr>db_doselog :=
                                                  update_one (vc_user_id cmd) (dose_medication_id top)
                                                    scheduled_at
                                                    (\<lambda>lg. lg\<lparr>log_status := Some ''snoozed'',
                                                              log_snooze_until := Some until,
                                                              log_updated_at := Some now\<rparr>)
                                                    (db_doselog d)\<rparr>),
                                         ''Okay, I'll remind you in '' @ str_nat minutes
                                           @ '' minutes.'')))))"

text \<open>\<^verbatim>\<open>voice_command\<close>: the store after the call and the response.\<close>

definition voice_command ::
  "database option \<Rightarrow> voice_command_in \<Rightarrow> datetime \<Rightarrow> error + database option \<times> string" where
  "voice_command db cmd now =
     (let text_lower = strip (lower (vc_text cmd))
      in if is_query text_lower then
           (case voice_query db cmd now of Inl e \<Rightarrow> Inl e | Inr response \<Rightarrow> Inr (db, response))
         else if is_reminder text_lower then voice_remind db cmd text_lower now
         else Inr (db, ''Sorry, I didn't understand. You can ask: 'What medicine do I take now?' or say 'Remind for 15 minutes later.''
                         @ [CHR 0x27]))"

subsection \<open>The compliance calendar\<close>

record calendar_entry =
  cal_date :: string
  cal_status :: string

text \<open>\<^verbatim>\<open>d.get(k, default)\<close> on a dictionary.\<close>

definition dict_get :: "('k \<rightharpoonup> 'v) \<Rightarrow> 'k \<Rightarrow> 'v \<Rightarrow> 'v" where
  "dict_get d k dflt = (case d k of None \<Rightarrow> dflt | Some v \<Rightarrow> v)"

definition empty_tally :: "string \<rightharpoonup> int" where
  "empty_tally = [''taken'' \<mapsto> 0, ''missed'' \<mapsto> 0, ''pending'' \<mapsto> 0]"

text \<open>
  The date of a log (lines 207 to 214). A \<^verbatim>\<open>scheduled_at\<close> that is a datetime gives its
  date. Anything else goes through the standard library's \<^verbatim>\<open>datetime.fromisoformat\<close>, whose
  accepted forms differ between Python versions: \<open>iso_date s\<close> stands for the ordinal of
  \<^verbatim>\<open>datetime.fromisoformat(s).date()\<close>, and for \<open>None\<close> when the call raises. It is a
  parameter of the calendar, so that what is proved holds for every such reader. A value that
  is no string raises \<^verbatim>\<open>TypeError\<close>. \<open>None\<close> is the \<^verbatim>\<open>continue\<close> after an exception.
\<close>

definition log_day :: "(string \<Rightarrow> int option) \<Rightarrow> doselog \<Rightarrow> int option" where
  "log_day iso_date lg =
     (case log_scheduled_at lg of
        SchedDatetime dt \<Rightarrow> Some (dt_day dt)
      | SchedString s \<Rightarrow> iso_date s
      | SchedOther \<Rightarrow> None)"

definition status_of :: "doselog \<Rightarrow> string" where
  "status_of lg = (case log_status lg of None \<Rightarrow> ''pending'' | Some s \<Rightarrow> s)"

text \<open>The loop over the logs (lines 206 to 219).\<close>

fun tally_logs ::
  "(string \<Rightarrow> int option) \<Rightarrow> doselog list \<Rightarrow> (int \<rightharpoonup> (string \<rightharpoonup> int))
     \<Rightarrow> (int \<rightharpoonup> (string \<rightharpoonup> int))" where
  "tally_logs iso_date [] day_status = day_status"
| "tally_logs iso_date (lg # logs) day_status =
     (case log_day iso_date lg of
        None \<Rightarrow> tally_logs iso_date logs day_status
      | Some day \<Rightarrow>
          let status = status_of lg;
              prev = dict_get day_status day empty_tally;
              prev' = prev(status \<mapsto> dict_get prev status 0 + 1)
          in tally_logs iso_date logs (day_status(day \<mapsto> prev')))"

text \<open>The classification of one day (lines 225 to 229).\<close>

definition day_symbol :: "(string \<rightharpoonup> int) \<Rightarrow> string" where
  "day_symbol st =
     (if dict_get st ''missed'' 0 > 0 then ''missed''
      else if dict_get st ''taken'' 0 > 0 \<and> dict_get st ''pending'' 0 = 0 then ''taken''
      else ''pending'')"

text \<open>The loop \<^verbatim>\<open>while d <= now.date()\<close> (lines 223 to 231); \<^verbatim>\<open>d += timedelta(days=1)\<close>
  past 9999-12-31 is an \<^verbatim>\<open>OverflowError\<close>.\<close>

function calendar_loop ::
  "(int \<rightharpoonup> (string \<rightharpoonup> int)) \<Rightarrow> int \<Rightarrow> int \<Rightarrow> calendar_entry list \<Rightarrow> error + calendar_entry list" where
  "calendar_loop day_status d today calendar =
     (if d \<le> today then
        (let st = dict_get day_status d empty_tally;
             calendar' = calendar @ [\<lparr>cal_date = date_isoformat d, cal_status = day_symbol st\<rparr>]
         in if d + 1 \<le> MAXORDINAL then calendar_loop day_status (d + 1) today calendar'
            else Inl OverflowError)
      else Inr calendar)"
  by pat_completeness auto
termination
  by (relation "measure (\<lambda>(day_status, d, today, calendar). nat (today + 1 - d))") auto

text \<open>\<^verbatim>\<open>caregiver_compliance\<close>; \<^verbatim>\<open>now - timedelta(days=30)\<close> before 0001-01-01 is an
  \<^verbatim>\<open>OverflowError\<close>.\<close>

definition caregiver_compliance ::
  "(string \<Rightarrow> int option) \<Rightarrow> database option \<Rightarrow> string \<Rightarrow> datetime
     \<Rightarrow> error + calendar_entry list" where
  "caregiver_compliance iso_date db user_id now =
     (if 0 < dt_day now - 30 then
        (case collection db of
           Inl e \<Rightarrow> Inl e
         | Inr d \<Rightarrow>
             calendar_loop
               (tally_logs iso_date (filter (\<lambda>lg. log_user_id lg = user_id) (db_doselog d)) Map.empty)
               (dt_day now - 30) (dt_day now) [])
      else Inl OverflowError)"

subsection \<open>Notions used in the statements and proofs\<close>

text \<open>The invariant of Python's datetime objects: a date between 0001-01-01 and 9999-12-31 and
  a time of day.\<close>

definition valid_datetime :: "datetime \<Rightarrow> bool" where
  "valid_datetime t =
     (0 < dt_day t \<and> dt_day t \<le> MAXORDINAL \<and> 0 \<le> dt_hour t \<and> dt_hour t \<le> 23
      \<and> 0 \<le> dt_minute t \<and> dt_minute t \<le> 59 \<and> 0 \<le> dt_second t \<and> dt_second t \<le> 59
      \<and> 0 \<le> dt_microsecond t \<and> dt_microsecond t \<le> 999999)"

text \<open>A \<^verbatim>\<open>$set\<close> that leaves the key fields of a document alone.\<close>

definition keeps_key :: "(doselog \<Rightarrow> doselog) \<Rightarrow> bool" where
  "keeps_key f =
     (\<forall>lg. log_user_id (f lg) = log_user_id lg \<and> log_medication_id (f lg) = log_medication_id lg
           \<and> log_scheduled_at (f lg) = log_scheduled_at lg)"

text \<open>The entries of today's list for one medication and one scheduled instant, with their
  status replaced.\<close>

definition set_status_at :: "string \<Rightarrow> string \<Rightarrow> string \<Rightarrow> dose \<Rightarrow> dose" where
  "set_status_at medication_id scheduled_at st y =
     (if dose_medication_id y = medication_id \<and> dose_scheduled_at y = scheduled_at
      then y\<lparr>dose_status := Some st\<rparr> else y)"

text \<open>The number of logs of a day with a given status (a log without status counts as
  pending, as in line 215), and the classification rule stated on these numbers.\<close>

definition day_count :: "(string \<Rightarrow> int option) \<Rightarrow> doselog list \<Rightarrow> int \<Rightarrow> string \<Rightarrow> int" where
  "day_count iso_date logs d s =
     int (length (filter (\<lambda>lg. log_day iso_date lg = Some d \<and> status_of lg = s) logs))"

definition classify :: "(string \<Rightarrow> int option) \<Rightarrow> doselog list \<Rightarrow> int \<Rightarrow> string" where
  "classify iso_date logs d =
     (if day_count iso_date logs d ''missed'' > 0 then ''missed''
      else if day_count iso_date logs d ''taken'' > 0 \<and> day_count iso_date logs d ''pending'' = 0
      then ''taken''
      else ''pending'')"

subsection \<open>Example data\<close>

text \<open>Monday 2024-03-04 is day 738949. Two medications of user \<open>u1\<close>, scheduled every day.\<close>

definition ex_med :: "string \<Rightarrow> string \<Rightarrow> string \<Rightarrow> string list \<Rightarrow> medication" where
  "ex_med ident name dosage ts =
     \<lparr>med_id = ident, med_user_id = ''u1'', med_name = name, med_dosage = dosage,
      med_pill_image_url = None, med_days_of_week = [0, 1, 2, 3, 4, 5, 6], med_times = ts\<rparr>"

definition ex_at :: "int \<Rightarrow> int \<Rightarrow> int \<Rightarrow> datetime" where
  "ex_at hour minute second =
     \<lparr>dt_day = 738949, dt_hour = hour, dt_minute = minute, dt_second = second, dt_microsecond = 0\<rparr>"

definition ex_db :: "medication list \<Rightarrow> database" where
  "ex_db meds = \<lparr>db_medication = meds, db_doselog = []\<rparr>"

definition ex_log :: "string \<Rightarrow> datetime \<Rightarrow> string \<Rightarrow> doselog" where
  "ex_log medication_id scheduled_at status =
     \<lparr>log_user_id = ''u1'', log_medication_id = medication_id,
      log_scheduled_at = SchedDatetime scheduled_at, log_status = Some status,
      log_taken_at = None, log_snooze_until = None, log_updated_at = None\<rparr>"

text \<open>The date \<^verbatim>\<open>datetime.fromisoformat(s).date()\<close> of the one string the examples store as
  a \<^verbatim>\<open>scheduled_at\<close>, a naive datetime of 2024-03-04; the examples store no other string.\<close>

definition ex_iso_date :: "string \<Rightarrow> int option" where
  "ex_iso_date s = (if s = ''2024-03-04T09:00:00'' then Some 738949 else None)"

declare str_nat.simps [simp del]

section \<open>Lemmas about strings and the dose-event store\<close>

text \<open>Substring containment, as the recursive search computes it, is the existence of a
  prefix and a suffix around the needle.\<close>

lemma str_contains_iff: "str_contains s sub \<longleftrightarrow> (\<exists>p q. s = p @ sub @ q)"
proof (induction s)
  case Nil
  then show ?case by simp
next
  case (Cons c cs)
  show ?case
  proof
    assume "str_contains (c # cs) sub"
    then consider "startswith (c # cs) sub" | "str_contains cs sub" by auto
    then show "\<exists>p q. c # cs = p @ sub @ q"
    proof cases
      case 1
      then have "c # cs = [] @ sub @ drop (length sub) (c # cs)"
        unfolding startswith_def by (metis append_Nil append_take_drop_id)
      then show ?thesis by blast
    next
      case 2
      then obtain p q where "cs = p @ sub @ q" using Cons.IH by blast
      then have "c # cs = (c # p) @ sub @ q" by simp
      then show ?thesis by blast
    qed
  next
    assume "\<exists>p q. c # cs = p @ sub @ q"
    then obtain p q where pq: "c # cs = p @ sub @ q" by blast
    show "str_contains (c # cs) sub"
    proof (cases p)
      case Nil
      then have "startswith (c # cs) sub" using pq by (simp add: startswith_def)
      then show ?thesis by simp
    next
      case (Cons a p')
      then have "cs = p' @ sub @ q" using pq by simp
      then show ?thesis using Cons.IH by auto
    qed
  qed
qed

lemma contains_5: "str_contains s ''15'' \<or> str_contains s ''45'' \<Longrightarrow> str_contains s ''5''"
proof -
  assume "str_contains s ''15'' \<or> str_contains s ''45''"
  then obtain p q c where "s = p @ (c # ''5'') @ q"
    unfolding str_contains_iff by auto
  then have "s = (p @ [c]) @ ''5'' @ q" by simp
  then show ?thesis unfolding str_contains_iff by blast
qed

lemma str_nat_5: "str_nat 5 = ''5''"
  by code_simp

text \<open>An upsert under a key leaves exactly one document to be found under that key, and two
  upserts under one key compose.\<close>

lemma find_one_update_one:
  "keeps_key f \<Longrightarrow> find_one (update_one u m s f logs) u m s =
     Some (f (case find_one logs u m s of None \<Rightarrow> key_document u m s | Some lg \<Rightarrow> lg))"
  by (induction logs) (auto simp: find_one_def key_matches_def key_document_def keeps_key_def)

lemma update_one_twice:
  "keeps_key f \<Longrightarrow> update_one u m s g (update_one u m s f logs) = update_one u m s (\<lambda>lg. g (f lg)) logs"
  by (induction logs) (auto simp: key_matches_def key_document_def keeps_key_def)

lemma keeps_key_taken:
  "keeps_key (\<lambda>lg. lg\<lparr>log_status := Some st, log_taken_at := Some t, log_updated_at := Some u\<rparr>)"
  by (simp add: keeps_key_def)

section \<open>Lemmas about the compliance calendar\<close>

text \<open>The tally dictionary built by the loop over the stored events counts, for each day and
  status, the events of that day with that status.\<close>

lemma tally_logs_count:
  "dict_get (dict_get (tally_logs iso_date logs ds) d empty_tally) s 0 =
     dict_get (dict_get ds d empty_tally) s 0 + day_count iso_date logs d s"
proof (induction logs arbitrary: ds)
  case Nil
  then show ?case by (simp add: day_count_def)
next
  case (Cons lg logs)
  show ?case
  proof (cases "log_day iso_date lg")
    case None
    then show ?thesis using Cons.IH[of ds] by (simp add: day_count_def)
  next
    case (Some day)
    define prev where "prev = dict_get ds day empty_tally"
    define ds' where "ds' = ds(day \<mapsto> prev(status_of lg \<mapsto> dict_get prev (status_of lg) 0 + 1))"
    have step: "tally_logs iso_date (lg # logs) ds = tally_logs iso_date logs ds'"
      by (simp add: Some Let_def ds'_def prev_def)
    have upd: "dict_get (dict_get ds' d empty_tally) s 0 =
                 dict_get (dict_get ds d empty_tally) s 0 + (if day = d \<and> status_of lg = s then 1 else 0)"
      by (simp add: ds'_def prev_def dict_get_def)
    have cnt: "day_count iso_date (lg # logs) d s = (if day = d \<and> status_of lg = s then 1 else 0) + day_count iso_date logs d s"
      by (simp add: day_count_def Some)
    show ?thesis
      unfolding step cnt using Cons.IH[of ds'] upd by simp
  qed
qed

lemma empty_tally_zero: "dict_get empty_tally s 0 = 0"
  by (simp add: dict_get_def empty_tally_def)

lemma tally_from_empty:
  "dict_get (dict_get (tally_logs iso_date logs Map.empty) d empty_tally) s 0 = day_count iso_date logs d s"
  using tally_logs_count[of iso_date logs Map.empty d s] by (simp add: dict_get_def empty_tally_def)

lemma day_symbol_tally:
  "day_symbol (dict_get (tally_logs iso_date logs Map.empty) d empty_tally) = classify iso_date logs d"
  by (simp add: day_symbol_def classify_def tally_from_empty)

text \<open>The \<^verbatim>\<open>while\<close> loop over the days appends one entry per day from the start day
  through today, as long as the day after today is still a date.\<close>

lemma calendar_loop_eq:
  "today < MAXORDINAL \<Longrightarrow>
   calendar_loop ds d today cal =
     Inr (cal @ map (\<lambda>k. \<lparr>cal_date = date_isoformat k,
                           cal_status = day_symbol (dict_get ds k empty_tally)\<rparr>) [d..today])"
proof (induction ds d today cal rule: calendar_loop.induct)
  case (1 ds d today cal)
  show ?case
  proof (cases "d \<le> today")
    case True
    then have "d + 1 \<le> MAXORDINAL" using "1.prems" by simp
    moreover have "[d..today] = d # [d + 1..today]" using True by (simp add: upto_rec1)
    ultimately show ?thesis using True "1.IH" "1.prems"
      by (subst calendar_loop.simps) (simp add: Let_def)
  next
    case False
    then show ?thesis by (subst calendar_loop.simps) simp
  qed
qed

lemma caregiver_compliance_eq:
  assumes "30 < dt_day now" and "dt_day now < MAXORDINAL"
  shows "caregiver_compliance iso_date (Some db) user_id now =
           Inr (map (\<lambda>k. \<lparr>cal_date = date_isoformat k,
                           cal_status = classify iso_date (filter (\<lambda>lg. log_user_id lg = user_id) (db_doselog db)) k\<rparr>)
                  [dt_day now - 30..dt_day now])"
proof -
  have "caregiver_compliance iso_date (Some db) user_id now =
          calendar_loop (tally_logs iso_date (filter (\<lambda>lg. log_user_id lg = user_id) (db_doselog db)) Map.empty)
            (dt_day now - 30) (dt_day now) []"
    using assms(1) by (simp add: caregiver_compliance_def collection_def)
  also have "\<dots> = Inr ([] @ map (\<lambda>k. \<lparr>cal_date = date_isoformat k,
                 cal_status = day_symbol (dict_get (tally_logs iso_date (filter (\<lambda>lg. log_user_id lg = user_id)
                    (db_doselog db)) Map.empty) k empty_tally)\<rparr>) [dt_day now - 30..dt_day now])"
    using assms(2) by (rule calendar_loop_eq)
  finally show ?thesis by (simp only: day_symbol_tally append_Nil)
qed

lemma nth_calendar:
  assumes "lo \<le> d" "d \<le> hi"
  shows "map f [lo..hi] ! nat (d - lo) = f d"
proof -
  have "nat (d - lo) < length [lo..hi]" using assms by simp
  moreover have "[lo..hi] ! nat (d - lo) = lo + int (nat (d - lo))"
    using assms by (intro nth_upto) simp
  ultimately show ?thesis using assms by simp
qed

lemma compliance_entry:
  assumes "30 < dt_day now" and "dt_day now < MAXORDINAL"
      and "dt_day now - 30 \<le> d" and "d \<le> dt_day now"
  shows "\<exists>cal. caregiver_compliance iso_date (Some db) user_id now = Inr cal
           \<and> cal ! nat (d - (dt_day now - 30)) =
               \<lparr>cal_date = date_isoformat d,
                cal_status = classify iso_date (filter (\<lambda>lg. log_user_id lg = user_id) (db_doselog db)) d\<rparr>"
proof -
  let ?f = "\<lambda>k. \<lparr>cal_date = date_isoformat k,
                  cal_status = classify iso_date (filter (\<lambda>lg. log_user_id lg = user_id) (db_doselog db)) k\<rparr>"
  have "caregiver_compliance iso_date (Some db) user_id now = Inr (map ?f [dt_day now - 30..dt_day now])"
    using assms(1,2) by (rule caregiver_compliance_eq)
  moreover have "map ?f [dt_day now - 30..dt_day now] ! nat (d - (dt_day now - 30)) = ?f d"
    using assms(3,4) by (rule nth_calendar)
  ultimately show ?thesis by blast
qed

section \<open>Lemmas about today's doses and the clock\<close>

text \<open>The ISO text of a scheduled instant determines the instant, the doses of a day do not
  depend on the time of day of the clock, and a dose event appended to the store under a key
  that had none changes the status of the doses with that key and nothing else.\<close>

lemma digit_code_mod: "(48 + (a::nat) mod 10) mod 256 = 48 + a mod 10"
  by (rule mod_less) (simp add: less_le_trans)

lemma digit_char_inj: "digit_char a = digit_char b \<longleftrightarrow> a mod 10 = b mod 10"
  unfolding digit_char_def char_of_quasi_inj digit_code_mod by simp

lemma two_digits_eq:
  assumes "(a::nat) < 100" "b < 100" "a div 10 mod 10 = b div 10 mod 10" "a mod 10 = b mod 10"
  shows "a = b"
proof -
  have "a div 10 < 10" "b div 10 < 10" using assms(1,2) by simp_all
  then have "a div 10 = b div 10" using assms(3) by simp
  then have "10 * (a div 10) + a mod 10 = 10 * (b div 10) + b mod 10" using assms(4) by simp
  then show "a = b" by (simp only: mult_div_mod_eq)
qed

lemma pad2_inj:
  assumes "0 \<le> a" "a \<le> 99" "0 \<le> b" "b \<le> 99" "pad2 a = pad2 b"
  shows "a = b"
proof -
  have "digit_char (nat a div 10) = digit_char (nat b div 10)" "digit_char (nat a) = digit_char (nat b)"
    using assms(5) by (simp_all add: pad2_def)
  then have d: "nat a div 10 mod 10 = nat b div 10 mod 10" "nat a mod 10 = nat b mod 10"
    by (simp_all only: digit_char_inj)
  have "nat a < 100" "nat b < 100" using assms by simp_all
  then have "nat a = nat b" using d by (rule two_digits_eq)
  then show ?thesis using assms by simp
qed

lemma dt_replace_Inr:
  "dt_replace now h mi = Inr s \<longleftrightarrow>
     (0 \<le> h \<and> h \<le> 23 \<and> 0 \<le> mi \<and> mi \<le> 59
      \<and> s = \<lparr>dt_day = dt_day now, dt_hour = h, dt_minute = mi, dt_second = 0, dt_microsecond = 0\<rparr>)"
  by (cases now) (auto simp: dt_replace_def c_int_def)

lemma isoformat_sched_inj:
  assumes "dt_replace now h mi = Inr s" "dt_replace now h' mi' = Inr s'" "isoformat s = isoformat s'"
  shows "s = s'"
proof -
  from assms(1) have s: "0 \<le> h" "h \<le> 23" "0 \<le> mi" "mi \<le> 59"
    "s = \<lparr>dt_day = dt_day now, dt_hour = h, dt_minute = mi, dt_second = 0, dt_microsecond = 0\<rparr>"
    by (simp_all add: dt_replace_Inr)
  from assms(2) have s': "0 \<le> h'" "h' \<le> 23" "0 \<le> mi'" "mi' \<le> 59"
    "s' = \<lparr>dt_day = dt_day now, dt_hour = h', dt_minute = mi', dt_second = 0, dt_microsecond = 0\<rparr>"
    by (simp_all add: dt_replace_Inr)
  from assms(3) have "pad2 h = pad2 h'" "pad2 mi = pad2 mi'"
    unfolding s(5) s'(5) isoformat_def by (simp_all add: pad2_def)
  then have "h = h'" "mi = mi'" using s s' by (auto intro: pad2_inj)
  then show ?thesis using s(5) s'(5) by simp
qed

lemma find_one_append:
  "find_one (logs @ [lg]) u m s =
     (case find_one logs u m s of
        Some x \<Rightarrow> Some x
      | None \<Rightarrow> if key_matches u m s lg then Some lg else None)"
  by (induction logs) (simp_all add: find_one_def)

lemma update_one_absent:
  "find_one logs u m s = None \<Longrightarrow> update_one u m s f logs = logs @ [f (key_document u m s)]"
  by (induction logs) (auto simp: find_one_def split: if_splits)

lemma dt_replace_same_day: "dt_day now' = dt_day now \<Longrightarrow> dt_replace now' h mi = dt_replace now h mi"
  by (cases now, cases now') (simp add: dt_replace_def)

lemma times_loop_same_day:
  "dt_day now' = dt_day now \<Longrightarrow> times_loop db u now' m ts due = times_loop db u now m ts due"
proof (induction ts arbitrary: due)
  case Nil
  then show ?case by simp
next
  case (Cons t ts)
  show ?case
  proof (cases "parse_time t")
    case None
    then show ?thesis using Cons by simp
  next
    case (Some hm)
    obtain h mi where hm: "hm = (h, mi)" by (cases hm)
    have r: "dt_replace now' h mi = dt_replace now h mi"
      using Cons.prems by (rule dt_replace_same_day)
    show ?thesis
    proof (cases "dt_replace now h mi")
      case (Inl e)
      then show ?thesis using Some hm r by simp
    next
      case (Inr s)
      then show ?thesis using Some hm r Cons.IH[OF Cons.prems] by simp
    qed
  qed
qed

lemma meds_loop_same_day:
  "dt_day now' = dt_day now \<Longrightarrow> meds_loop db u now' ms due = meds_loop db u now ms due"
proof (induction ms arbitrary: due)
  case Nil
  then show ?case by simp
next
  case (Cons m ms)
  have w: "weekday now' = weekday now" using Cons.prems by (simp add: weekday_def)
  have t: "times_loop db u now' m (med_times m) due = times_loop db u now m (med_times m) due"
    using Cons.prems by (rule times_loop_same_day)
  show ?case
  proof (cases "times_loop db u now m (med_times m) due")
    case (Inl e)
    then show ?thesis using w t Cons.IH[OF Cons.prems] by simp
  next
    case (Inr r)
    then show ?thesis using w t Cons.IH[OF Cons.prems] by simp
  qed
qed

lemma get_todays_doses_same_day:
  assumes "dt_day now' = dt_day now"
  shows "get_todays_doses db u now' = get_todays_doses db u now"
  unfolding get_todays_doses_def meds_loop_same_day[OF assms] assms ..

lemma times_loop_entries:
  "times_loop db u now m ts due = Inr r \<Longrightarrow> x \<in> set r \<Longrightarrow>
     x \<in> set due \<or> (\<exists>h mi s. dt_replace now h mi = Inr s \<and> x = dose_entry db u m s)"
proof (induction ts arbitrary: due)
  case Nil
  then show ?case by simp
next
  case (Cons t ts)
  show ?case
  proof (cases "parse_time t")
    case None
    then show ?thesis using Cons by simp
  next
    case (Some hm)
    obtain h mi where hm: "hm = (h, mi)" by (cases hm)
    show ?thesis
    proof (cases "dt_replace now h mi")
      case (Inl e)
      then show ?thesis using Cons.prems Some hm by simp
    next
      case (Inr s)
      then have "times_loop db u now m ts (due @ [dose_entry db u m s]) = Inr r"
        using Cons.prems(1) Some hm by simp
      from Cons.IH[OF this Cons.prems(2)] show ?thesis using Inr by auto
    qed
  qed
qed

lemma meds_loop_entries:
  "meds_loop db u now ms due = Inr r \<Longrightarrow> x \<in> set r \<Longrightarrow>
     x \<in> set due \<or> (\<exists>m h mi s. dt_replace now h mi = Inr s \<and> x = dose_entry db u m s)"
proof (induction ms arbitrary: due)
  case Nil
  then show ?case by simp
next
  case (Cons m ms)
  show ?case
  proof (cases "weekday now \<notin> set (med_days_of_week m)")
    case True
    then show ?thesis using Cons by simp
  next
    case False
    show ?thesis
    proof (cases "times_loop db u now m (med_times m) due")
      case (Inl e)
      then show ?thesis using Cons.prems(1) False by simp
    next
      case (Inr due')
      then have r: "meds_loop db u now ms due' = Inr r" using Cons.prems(1) False by simp
      from Cons.IH[OF r Cons.prems(2)] show ?thesis
        using times_loop_entries[OF Inr] by blast
    qed
  qed
qed

lemma get_todays_doses_Inr:
  "get_todays_doses (Some db) u now = Inr doses \<longleftrightarrow>
     (\<exists>due. meds_loop db u now (filter (\<lambda>m. med_user_id m = u) (db_medication db)) [] = Inr due
        \<and> doses = filter (\<lambda>x. startswith (dose_scheduled_at x) (date_isoformat (dt_day now)))
                     (sort_key dose_scheduled_at due))"
  by (cases "meds_loop db u now (filter (\<lambda>m. med_user_id m = u) (db_medication db)) []")
     (auto simp: get_todays_doses_def collection_def)

lemma get_todays_doses_entries:
  assumes "get_todays_doses (Some db) u now = Inr doses" "x \<in> set doses"
  shows "\<exists>m h mi s. dt_replace now h mi = Inr s \<and> x = dose_entry db u m s"
proof -
  from assms(1) obtain due where
    due: "meds_loop db u now (filter (\<lambda>m. med_user_id m = u) (db_medication db)) [] = Inr due"
    and doses: "doses = filter (\<lambda>x. startswith (dose_scheduled_at x) (date_isoformat (dt_day now)))
                     (sort_key dose_scheduled_at due)"
    unfolding get_todays_doses_Inr by blast
  have "x \<in> set due" using assms(2) doses by simp
  from meds_loop_entries[OF due this] show ?thesis by simp
qed

lemma set_status_at_sched [simp]:
  "dose_scheduled_at (set_status_at mid sa st y) = dose_scheduled_at y"
  by (simp add: set_status_at_def)

lemma insort_key_map_same:
  "(\<And>y. k (f y) = k y) \<Longrightarrow> insort_key k (f x) (map f ys) = map f (insort_key k x ys)"
  by (induction ys) simp_all

lemma sort_key_map_same:
  "(\<And>y. k (f y) = k y) \<Longrightarrow> sort_key k (map f xs) = map f (sort_key k xs)"
  by (induction xs) (simp_all add: insort_key_map_same)

lemma filter_map_same:
  "(\<And>y. P (f y) = P y) \<Longrightarrow> filter P (map f xs) = map f (filter P xs)"
  by (induction xs) simp_all

lemma dose_entry_after_snooze:
  assumes s0: "dt_replace now h0 mi0 = Inr s0"
      and none: "find_one (db_doselog db) u mid s0 = None"
      and logs': "db_doselog db' = db_doselog db @ [lg]"
      and lg: "log_user_id lg = u" "log_medication_id lg = mid" "log_scheduled_at lg = SchedDatetime s0"
              "log_status lg = Some ''snoozed''"
      and s: "dt_replace now h mi = Inr s"
  shows "dose_entry db' u m s = set_status_at mid (isoformat s0) ''snoozed'' (dose_entry db u m s)"
proof (cases "med_id m = mid \<and> s = s0")
  case True
  then have "find_one (db_doselog db') u (med_id m) s = Some lg"
    using none lg by (simp add: logs' find_one_append key_matches_def)
  then show ?thesis using True none lg(4)
    by (simp add: dose_entry_def set_status_at_def)
next
  case False
  then have k: "\<not> key_matches u (med_id m) s lg"
    using lg by (auto simp: key_matches_def)
  have f: "find_one (db_doselog db') u (med_id m) s = find_one (db_doselog db) u (med_id m) s"
    using k by (simp add: logs' find_one_append split: option.splits)
  have "\<not> (med_id m = mid \<and> isoformat s = isoformat s0)"
    using False isoformat_sched_inj[OF s s0] by blast
  then show ?thesis using f by (auto simp: dose_entry_def set_status_at_def Let_def)
qed

lemma times_loop_after_snooze:
  assumes s0: "dt_replace now h0 mi0 = Inr s0"
      and none: "find_one (db_doselog db) u mid s0 = None"
      and logs': "db_doselog db' = db_doselog db @ [lg]"
      and lg: "log_user_id lg = u" "log_medication_id lg = mid" "log_scheduled_at lg = SchedDatetime s0"
              "log_status lg = Some ''snoozed''"
  shows "times_loop db' u now m ts (map (set_status_at mid (isoformat s0) ''snoozed'') due) =
           map_sum id (map (set_status_at mid (isoformat s0) ''snoozed'')) (times_loop db u now m ts due)"
proof (induction ts arbitrary: due)
  case Nil
  then show ?case by simp
next
  case (Cons t ts)
  show ?case
  proof (cases "parse_time t")
    case None
    then show ?thesis using Cons.IH by simp
  next
    case (Some hm)
    obtain h mi where hm: "hm = (h, mi)" by (cases hm)
    show ?thesis
    proof (cases "dt_replace now h mi")
      case (Inl e)
      then show ?thesis using Some hm by simp
    next
      case (Inr s)
      have e: "dose_entry db' u m s = set_status_at mid (isoformat s0) ''snoozed'' (dose_entry db u m s)"
        using s0 none logs' lg Inr by (rule dose_entry_after_snooze)
      show ?thesis
        using Some hm Inr Cons.IH[of "due @ [dose_entry db u m s]"] by (simp add: e)
    qed
  qed
qed

lemma meds_loop_after_snooze:
  assumes s0: "dt_replace now h0 mi0 = Inr s0"
      and none: "find_one (db_doselog db) u mid s0 = None"
      and logs': "db_doselog db' = db_doselog db @ [lg]"
      and lg: "log_user_id lg = u" "log_medication_id lg = mid" "log_scheduled_at lg = SchedDatetime s0"
              "log_status lg = Some ''snoozed''"
  shows "meds_loop db' u now ms (map (set_status_at mid (isoformat s0) ''snoozed'') due) =
           map_sum id (map (set_status_at mid (isoformat s0) ''snoozed'')) (meds_loop db u now ms due)"
proof (induction ms arbitrary: due)
  case Nil
  then show ?case by simp
next
  case (Cons m ms)
  note t = times_loop_after_snooze[OF s0 none logs' lg, of m "med_times m" due]
  show ?case
  proof (cases "weekday now \<notin> set (med_days_of_week m)")
    case True
    then show ?thesis using Cons.IH by simp
  next
    case False
    show ?thesis
    proof (cases "times_loop db u now m (med_times m) due")
      case (Inl e)
      then show ?thesis using False t by simp
    next
      case (Inr due')
      then show ?thesis using False t Cons.IH[of due'] by simp
    qed
  qed
qed

lemma get_todays_doses_after_snooze:
  assumes s0: "dt_replace now h0 mi0 = Inr s0"
      and none: "find_one (db_doselog db) u mid s0 = None"
      and logs': "db_doselog db' = db_doselog db @ [lg]"
      and meds: "db_medication db' = db_medication db"
      and lg: "log_user_id lg = u" "log_medication_id lg = mid" "log_scheduled_at lg = SchedDatetime s0"
              "log_status lg = Some ''snoozed''"
      and doses: "get_todays_doses (Some db) u now = Inr doses"
  shows "get_todays_doses (Some db') u now =
           Inr (map (set_status_at mid (isoformat s0) ''snoozed'') doses)"
proof -
  from doses obtain due where
    due: "meds_loop db u now (filter (\<lambda>m. med_user_id m = u) (db_medication db)) [] = Inr due"
    and d: "doses = filter (\<lambda>x. startswith (dose_scheduled_at x) (date_isoformat (dt_day now)))
                     (sort_key dose_scheduled_at due)"
    unfolding get_todays_doses_Inr by blast
  have "meds_loop db' u now (filter (\<lambda>m. med_user_id m = u) (db_medication db')) [] =
          Inr (map (set_status_at mid (isoformat s0) ''snoozed'') due)"
    using meds_loop_after_snooze[OF s0 none logs' lg, of "filter (\<lambda>m. med_user_id m = u) (db_medication db)" "[]"]
    by (simp add: meds due)
  then have "get_todays_doses (Some db') u now =
      Inr (filter (\<lambda>x. startswith (dose_scheduled_at x) (date_isoformat (dt_day now)))
             (sort_key dose_scheduled_at (map (set_status_at mid (isoformat s0) ''snoozed'') due)))"
    unfolding get_todays_doses_Inr by blast
  then show ?thesis
    by (simp add: d sort_key_map_same filter_map_same)
qed

lemma add_minutes_ok:
  assumes "valid_datetime t" "dt_day t < MAXORDINAL" "0 \<le> m" "m \<le> 1440"
  shows "\<exists>until. add_minutes t m = Inr until"
proof -
  define x where "x = dt_micros t + m * 60000000"
  define q where "q = x div 86400000000"
  define r where "r = x mod 86400000000"
  have lo: "86400000000 * dt_day t \<le> x"
    using assms unfolding x_def dt_micros_def valid_datetime_def by simp
  have hi: "x < 86400000000 * dt_day t + 172800000000"
    using assms unfolding x_def dt_micros_def valid_datetime_def by simp
  have "x = 86400000000 * q + r" by (simp add: q_def r_def)
  moreover have "0 \<le> r" "r < 86400000000" by (simp_all add: r_def)
  ultimately have "dt_day t \<le> q" "q \<le> dt_day t + 1" using lo hi by linarith+
  then have "0 < q" "q \<le> MAXORDINAL" using assms unfolding valid_datetime_def by linarith+
  then show ?thesis
    by (simp add: add_minutes_def of_micros_def Let_def x_def[symmetric] q_def[symmetric])
qed

section \<open>Malformed schedule times\<close>

text \<open>Claim C1 says that every malformed entry of a medication's times list, out-of-range
  entries such as 25:99 included, is skipped by \<^verbatim>\<open>get_todays_doses\<close> without an exception.
  The conversion to integers is inside the \<^verbatim>\<open>try\<close> block, the call of \<^verbatim>\<open>replace\<close> is after
  it: for a medication scheduled today with times 08:00 and 25:99 the resolver raises
  \<^verbatim>\<open>ValueError\<close> and resolves nothing, not even the well-formed 08:00.\<close>

theorem out_of_range_time_raises:
  "get_todays_doses (Some (ex_db [ex_med ''m1'' ''Aspirin'' ''100 mg'' [''08:00'', ''25:99'']]))
     ''u1'' (ex_at 7 30 0) = Inl ValueError"
  by code_simp

text \<open>A non-numeric entry is skipped, as the \<^verbatim>\<open>except\<close> clause intends: the remaining entry
  is resolved.\<close>

lemma non_numeric_time_skipped:
  "get_todays_doses (Some (ex_db [ex_med ''m1'' ''Aspirin'' ''100 mg'' [''abc'', ''08:00'']]))
     ''u1'' (ex_at 7 30 0)
   = Inr [\<lparr>dose_medication_id = ''m1'', dose_name = ''Aspirin'', dose_dosage = ''100 mg'',
            dose_pill_image_url = None, dose_scheduled_at = ''2024-03-04T08:00:00+00:00'',
            dose_status = Some ''pending''\<rparr>]"
  by code_simp

section \<open>The voice reminder\<close>

text \<open>Claim C2 says that the reminder intent snoozes the pending entry nearest in time to now,
  by the rule of the query intent. The reminder branch takes the first pending entry of the day
  in chronological order, without the sort by distance the query branch does: five minutes
  before the 20:00 dose, with the 08:00 dose still pending, the reminder for 10 minutes writes
  the snoozed event under the key of the 08:00 dose.\<close>

theorem reminder_snoozes_first_not_nearest:
  "voice_command (Some (ex_db [ex_med ''m1'' ''Aspirin'' ''100 mg'' [''08:00'', ''20:00'']]))
     \<lparr>vc_text = ''Remind me in 10 minutes'', vc_user_id = ''u1''\<rparr> (ex_at 19 55 0)
   = Inr (Some ((ex_db [ex_med ''m1'' ''Aspirin'' ''100 mg'' [''08:00'', ''20:00'']])
                  \<lparr>db_doselog :=
                     [(ex_log ''m1'' (ex_at 8 0 0) ''snoozed'')
                        \<lparr>log_snooze_until := Some (ex_at 20 5 0),
                         log_updated_at := Some (ex_at 19 55 0)\<rparr>]\<rparr>),
          ''Okay, I'll remind you in 10 minutes.'')"
  by code_simp

text \<open>Claim C8: a reminder command that finds no pending or snoozed dose answers with the
  confirmation text and returns the store it was given, so no dose event is created or
  modified.\<close>

theorem reminder_nothing_due:
  assumes "\<not> is_query (strip (lower (vc_text cmd)))"
      and "is_reminder (strip (lower (vc_text cmd)))"
      and "get_todays_doses db (vc_user_id cmd) now = Inr doses"
      and "filter is_pending doses = []"
  shows "voice_command db cmd now =
           Inr (db, ''Okay, I'll remind you in '' @ str_nat (reminder_minutes (strip (lower (vc_text cmd))))
                      @ '' minutes, but there is nothing due right now.'')"
  using assms by (simp add: voice_command_def voice_remind_def Let_def)

text \<open>The reminder of 30 minutes of a user who has no medication: the store, which holds
  another user's medication, is returned as it was.\<close>

theorem reminder_nothing_due_witness:
  "voice_command (Some (ex_db [ex_med ''m1'' ''Aspirin'' ''100 mg'' [''08:00'']]))
     \<lparr>vc_text = ''Remind me in 30 minutes'', vc_user_id = ''u2''\<rparr> (ex_at 8 55 1)
   = Inr (Some (ex_db [ex_med ''m1'' ''Aspirin'' ''100 mg'' [''08:00'']]),
          ''Okay, I'll remind you in 30 minutes, but there is nothing due right now.'')"
proof -
  let ?cmd = "\<lparr>vc_text = ''Remind me in 30 minutes'', vc_user_id = ''u2''\<rparr>"
  have t: "strip (lower (vc_text ?cmd)) = ''remind me in 30 minutes''" by code_simp
  have q: "\<not> is_query (strip (lower (vc_text ?cmd)))" unfolding t by code_simp
  have r: "is_reminder (strip (lower (vc_text ?cmd)))" unfolding t by code_simp
  have g: "get_todays_doses (Some (ex_db [ex_med ''m1'' ''Aspirin'' ''100 mg'' [''08:00'']]))
             (vc_user_id ?cmd) (ex_at 8 55 1) = Inr []"
    by code_simp
  have m: "str_nat (reminder_minutes ''remind me in 30 minutes'') = ''30''" by code_simp
  from reminder_nothing_due[OF q r g] show ?thesis
    unfolding t m by simp
qed

text \<open>Claim C9: the ladder of minute counts is searched in order by substring containment, so
  a text that contains 15 or 45 contains 5, which is tested first: the extracted count is 5.\<close>

theorem ladder_15_45_gives_5:
  "str_contains text_lower ''15'' \<or> str_contains text_lower ''45'' \<Longrightarrow> reminder_minutes text_lower = 5"
  using contains_5[of text_lower] by (simp add: reminder_minutes_def str_nat_5 del: str_nat.simps)

text \<open>The text of the example, lowered and stripped as the handler does.\<close>

theorem ladder_15_45_gives_5_witness:
  "reminder_minutes (strip (lower ''Remind me in 15 minutes'')) = 5"
proof -
  have h: "str_contains (strip (lower ''Remind me in 15 minutes'')) ''15''
           \<or> str_contains (strip (lower ''Remind me in 15 minutes'')) ''45''"
    by code_simp
  from ladder_15_45_gives_5[OF h] show ?thesis .
qed

section \<open>Marking a dose taken\<close>

text \<open>Claim C3, as amended: calling \<^verbatim>\<open>mark_taken\<close> twice with one key leaves one dose event
  under that key, with status taken, that differs from the event after the first call in
  taken-at and updated-at, both set to the clock readings of the second call; the store is the
  one a single call with the second readings gives.\<close>

theorem mark_taken_twice:
  "\<exists>d1 d2 lg.
     mark_taken (Some db) payload t1 u1 = Inr (d1, True)
     \<and> mark_taken (Some d1) payload t2 u2 = Inr (d2, True)
     \<and> find_one (db_doselog d1) (ta_user_id payload) (ta_medication_id payload) (ta_scheduled_at payload)
         = Some lg
     \<and> log_status lg = Some ''taken'' \<and> log_taken_at lg = Some t1 \<and> log_updated_at lg = Some u1
     \<and> find_one (db_doselog d2) (ta_user_id payload) (ta_medication_id payload) (ta_scheduled_at payload)
         = Some (lg\<lparr>log_taken_at := Some t2, log_updated_at := Some u2\<rparr>)
     \<and> mark_taken (Some db) payload t2 u2 = Inr (d2, True)"
  by (simp add: mark_taken_def collection_def find_one_update_one update_one_twice keeps_key_taken)

text \<open>Two calls, a minute apart, on an empty store: the event after the second call is not the
  event after the first call with only updated-at advanced, since taken-at moved as well.\<close>

theorem mark_taken_twice_counterexample:
  "mark_taken (Some (ex_db [])) \<lparr>ta_user_id = ''u1'', ta_medication_id = ''m1'', ta_scheduled_at = ex_at 9 0 0\<rparr>
     (ex_at 9 1 0) (ex_at 9 1 0)
   = Inr ((ex_db [])\<lparr>db_doselog :=
            [(ex_log ''m1'' (ex_at 9 0 0) ''taken'')
               \<lparr>log_taken_at := Some (ex_at 9 1 0), log_updated_at := Some (ex_at 9 1 0)\<rparr>]\<rparr>, True)
   \<and> mark_taken
       (Some ((ex_db [])\<lparr>db_doselog :=
            [(ex_log ''m1'' (ex_at 9 0 0) ''taken'')
               \<lparr>log_taken_at := Some (ex_at 9 1 0), log_updated_at := Some (ex_at 9 1 0)\<rparr>]\<rparr>))
       \<lparr>ta_user_id = ''u1'', ta_medication_id = ''m1'', ta_scheduled_at = ex_at 9 0 0\<rparr>
       (ex_at 9 2 0) (ex_at 9 2 0)
   = Inr ((ex_db [])\<lparr>db_doselog :=
            [(ex_log ''m1'' (ex_at 9 0 0) ''taken'')
               \<lparr>log_taken_at := Some (ex_at 9 2 0), log_updated_at := Some (ex_at 9 2 0)\<rparr>]\<rparr>, True)
   \<and> (ex_log ''m1'' (ex_at 9 0 0) ''taken'')
        \<lparr>log_taken_at := Some (ex_at 9 2 0), log_updated_at := Some (ex_at 9 2 0)\<rparr>
     \<noteq> ((ex_log ''m1'' (ex_at 9 0 0) ''taken'')
          \<lparr>log_taken_at := Some (ex_at 9 1 0), log_updated_at := Some (ex_at 9 1 0)\<rparr>)
        \<lparr>log_updated_at := Some (ex_at 9 2 0)\<rparr>"
  by code_simp

section \<open>Snoozing a dose\<close>

text \<open>Claim C5: a dose that \<^verbatim>\<open>get_todays_doses\<close> reports and that has no stored event under its
  key (user, medication, scheduled instant) is reported pending. After \<^verbatim>\<open>snooze\<close> on that key
  with 15 minutes, the store holds one event under the key, with status snoozed and snooze-until
  equal to the clock reading of the call plus 15 minutes, and \<^verbatim>\<open>get_todays_doses\<close>, called
  again on the same day, reports the same doses with status snoozed for that entry. The clock
  of the call is a datetime before the last day of year 9999.\<close>

theorem snooze_round_trip:
  assumes doses: "get_todays_doses (Some db) user_id now = Inr doses"
      and x: "x \<in> set doses"
      and sched: "dt_replace now hour minute = Inr sched_dt"
      and iso: "dose_scheduled_at x = isoformat sched_dt"
      and none: "find_one (db_doselog db) user_id (dose_medication_id x) sched_dt = None"
      and t1: "valid_datetime t1" "dt_day t1 < MAXORDINAL"
      and day: "dt_day now' = dt_day now"
  shows "dose_status x = Some ''pending''
       \<and> (\<exists>db' until lg.
             add_minutes t1 15 = Inr until
           \<and> snooze (Some db)
                 \<lparr>sn_user_id = user_id, sn_medication_id = dose_medication_id x,
                  sn_scheduled_at = sched_dt, sn_minutes = 15\<rparr> t1 t2 = Inr (db', isoformat until)
           \<and> find_one (db_doselog db') user_id (dose_medication_id x) sched_dt = Some lg
           \<and> log_status lg = Some ''snoozed'' \<and> log_snooze_until lg = Some until
           \<and> get_todays_doses (Some db') user_id now' =
                 Inr (map (set_status_at (dose_medication_id x) (dose_scheduled_at x) ''snoozed'') doses)
           \<and> x\<lparr>dose_status := Some ''snoozed''\<rparr>
                 \<in> set (map (set_status_at (dose_medication_id x) (dose_scheduled_at x) ''snoozed'') doses))"
proof -
  define mid where "mid = dose_medication_id x"
  from get_todays_doses_entries[OF doses x] obtain m h mi s where
    s: "dt_replace now h mi = Inr s" and xe: "x = dose_entry db user_id m s"
    by blast
  have "isoformat s = isoformat sched_dt" using iso xe by (simp add: dose_entry_def Let_def)
  with s sched have ss: "s = sched_dt" by (rule isoformat_sched_inj)
  have m: "med_id m = mid" using xe by (simp add: mid_def dose_entry_def Let_def)
  have pending: "dose_status x = Some ''pending''"
    using none xe ss by (simp add: dose_entry_def Let_def)
  have "\<exists>until. add_minutes t1 15 = Inr until"
    using t1 by (rule add_minutes_ok) simp_all
  then obtain until where until: "add_minutes t1 15 = Inr until" by blast
  define lg where
    "lg = (key_document user_id mid sched_dt)
            \<lparr>log_status := Some ''snoozed'', log_snooze_until := Some until, log_updated_at := Some t2\<rparr>"
  define db' where "db' = db\<lparr>db_doselog := db_doselog db @ [lg]\<rparr>"
  have none': "find_one (db_doselog db) user_id mid sched_dt = None" using none by (simp add: mid_def)
  have upd: "update_one user_id mid sched_dt
               (\<lambda>lg. lg\<lparr>log_status := Some ''snoozed'', log_snooze_until := Some until,
                         log_updated_at := Some t2\<rparr>) (db_doselog db) = db_doselog db @ [lg]"
    unfolding lg_def using none' by (rule update_one_absent)
  have sn: "snooze (Some db)
              \<lparr>sn_user_id = user_id, sn_medication_id = mid, sn_scheduled_at = sched_dt, sn_minutes = 15\<rparr>
              t1 t2 = Inr (db', isoformat until)"
    by (simp add: snooze_def until collection_def upd db'_def)
  have lgk: "log_user_id lg = user_id" "log_medication_id lg = mid"
    "log_scheduled_at lg = SchedDatetime sched_dt" "log_status lg = Some ''snoozed''"
    by (simp_all add: lg_def key_document_def)
  have found: "find_one (db_doselog db') user_id mid sched_dt = Some lg"
    using none' lgk by (simp add: db'_def find_one_append key_matches_def)
  have until_lg: "log_snooze_until lg = Some until" by (simp add: lg_def)
  have "get_todays_doses (Some db') user_id now =
          Inr (map (set_status_at mid (isoformat sched_dt) ''snoozed'') doses)"
    by (rule get_todays_doses_after_snooze[OF sched none' _ _ lgk doses]) (simp_all add: db'_def)
  then have agg: "get_todays_doses (Some db') user_id now' =
          Inr (map (set_status_at mid (dose_scheduled_at x) ''snoozed'') doses)"
    by (simp add: get_todays_doses_same_day[OF day] iso)
  have eq: "set_status_at mid (dose_scheduled_at x) ''snoozed'' x = x\<lparr>dose_status := Some ''snoozed''\<rparr>"
    by (simp add: set_status_at_def mid_def)
  have "set_status_at mid (dose_scheduled_at x) ''snoozed'' x
          \<in> set_status_at mid (dose_scheduled_at x) ''snoozed'' ` set doses"
    using x by (rule imageI)
  then have mem: "x\<lparr>dose_status := Some ''snoozed''\<rparr>
                    \<in> set (map (set_status_at mid (dose_scheduled_at x) ''snoozed'') doses)"
    unfolding eq set_map .
  note fs = until sn[unfolded mid_def] found[unfolded mid_def] lgk(4) until_lg
    agg[unfolded mid_def] mem[unfolded mid_def]
  have "\<exists>db' until lg.
             add_minutes t1 15 = Inr until
           \<and> snooze (Some db)
                 \<lparr>sn_user_id = user_id, sn_medication_id = dose_medication_id x,
                  sn_scheduled_at = sched_dt, sn_minutes = 15\<rparr> t1 t2 = Inr (db', isoformat until)
           \<and> find_one (db_doselog db') user_id (dose_medication_id x) sched_dt = Some lg
           \<and> log_status lg = Some ''snoozed'' \<and> log_snooze_until lg = Some until
           \<and> get_todays_doses (Some db') user_id now' =
                 Inr (map (set_status_at (dose_medication_id x) (dose_scheduled_at x) ''snoozed'') doses)
           \<and> x\<lparr>dose_status := Some ''snoozed''\<rparr>
                 \<in> set (map (set_status_at (dose_medication_id x) (dose_scheduled_at x) ''snoozed'') doses)"
    by (rule exI[of _ db'], rule exI[of _ until], rule exI[of _ lg]) (intro conjI fs)
  with pending show ?thesis by (rule conjI)
qed

text \<open>The 08:00 dose of the 4th of March 2024, snoozed at 07:45 until 08:00.\<close>

theorem snooze_round_trip_witness:
  "dose_status
     \<lparr>dose_medication_id = ''m1'', dose_name = ''Aspirin'', dose_dosage = ''100 mg'',
      dose_pill_image_url = None, dose_scheduled_at = ''2024-03-04T08:00:00+00:00'',
      dose_status = Some ''pending''\<rparr> = Some ''pending''
   \<and> (\<exists>db' until lg.
         add_minutes (ex_at 7 45 0) 15 = Inr until
       \<and> snooze (Some (ex_db [ex_med ''m1'' ''Aspirin'' ''100 mg'' [''08:00'']]))
             \<lparr>sn_user_id = ''u1'', sn_medication_id = ''m1'',
              sn_scheduled_at = ex_at 8 0 0, sn_minutes = 15\<rparr> (ex_at 7 45 0) (ex_at 7 45 1)
           = Inr (db', isoformat until)
       \<and> find_one (db_doselog db') ''u1'' ''m1'' (ex_at 8 0 0) = Some lg
       \<and> log_status lg = Some ''snoozed'' \<and> log_snooze_until lg = Some until
       \<and> until = ex_at 8 0 0
       \<and> get_todays_doses (Some db') ''u1'' (ex_at 7 50 0) =
             Inr [\<lparr>dose_medication_id = ''m1'', dose_name = ''Aspirin'', dose_dosage = ''100 mg'',
                   dose_pill_image_url = None, dose_scheduled_at = ''2024-03-04T08:00:00+00:00'',
                   dose_status = Some ''snoozed''\<rparr>])"
proof -
  let ?db = "ex_db [ex_med ''m1'' ''Aspirin'' ''100 mg'' [''08:00'']]"
  let ?x = "\<lparr>dose_medication_id = ''m1'', dose_name = ''Aspirin'', dose_dosage = ''100 mg'',
      dose_pill_image_url = None, dose_scheduled_at = ''2024-03-04T08:00:00+00:00'',
      dose_status = Some ''pending''\<rparr>"
  have doses: "get_todays_doses (Some ?db) ''u1'' (ex_at 7 30 0) = Inr [?x]" by code_simp
  have x: "?x \<in> set [?x]" by simp
  have sched: "dt_replace (ex_at 7 30 0) 8 0 = Inr (ex_at 8 0 0)" by code_simp
  have iso: "dose_scheduled_at ?x = isoformat (ex_at 8 0 0)" by code_simp
  have none: "find_one (db_doselog ?db) ''u1'' (dose_medication_id ?x) (ex_at 8 0 0) = None"
    by code_simp
  have t1: "valid_datetime (ex_at 7 45 0)" "dt_day (ex_at 7 45 0) < MAXORDINAL" by code_simp+
  have day: "dt_day (ex_at 7 50 0) = dt_day (ex_at 7 30 0)" by (simp add: ex_at_def)
  have u: "add_minutes (ex_at 7 45 0) 15 = Inr (ex_at 8 0 0)" by code_simp
  have st: "set_status_at ''m1'' ''2024-03-04T08:00:00+00:00'' ''snoozed'' ?x
              = ?x\<lparr>dose_status := Some ''snoozed''\<rparr>"
    by (simp add: set_status_at_def)
  from snooze_round_trip[OF doses x sched iso none t1 day, of "ex_at 7 45 1"]
  obtain db' until lg where r:
    "add_minutes (ex_at 7 45 0) 15 = Inr until"
    "snooze (Some ?db) \<lparr>sn_user_id = ''u1'', sn_medication_id = ''m1'',
              sn_scheduled_at = ex_at 8 0 0, sn_minutes = 15\<rparr> (ex_at 7 45 0) (ex_at 7 45 1)
           = Inr (db', isoformat until)"
    "find_one (db_doselog db') ''u1'' ''m1'' (ex_at 8 0 0) = Some lg"
    "log_status lg = Some ''snoozed''" "log_snooze_until lg = Some until"
    "get_todays_doses (Some db') ''u1'' (ex_at 7 50 0) =
       Inr (map (set_status_at ''m1'' ''2024-03-04T08:00:00+00:00'' ''snoozed'') [?x])"
    by (simp only: dose.simps) blast
  have ue: "until = ex_at 8 0 0" using r(1) u by simp
  have g: "get_todays_doses (Some db') ''u1'' (ex_at 7 50 0) = Inr [?x\<lparr>dose_status := Some ''snoozed''\<rparr>]"
    unfolding r(6) list.map st ..
  show ?thesis
    apply (rule conjI)
     apply simp
    apply (rule exI[of _ db'], rule exI[of _ until], rule exI[of _ lg])
    using r(1-5) ue g by simp
qed

section \<open>The voice query\<close>

text \<open>Claim C4 says that the query intent names the entry with the least absolute distance
  from now in whole minutes, ties going to the entry first in chronological order. The sort
  key floors the signed distance to minutes before taking the absolute value: one second
  after 08:55 the 08:55 dose has key 1 and the 08:56 dose, 59 seconds ahead, has key 0, so the
  response names the dose farther away.\<close>

theorem query_names_farther_dose:
  "voice_command
     (Some (ex_db [ex_med ''m1'' ''Aspirin'' ''100 mg'' [''08:55''],
                   ex_med ''m2'' ''Ibuprofen'' ''200 mg'' [''08:56'']]))
     \<lparr>vc_text = ''What medicine do I take now?'', vc_user_id = ''u1''\<rparr> (ex_at 8 55 1)
   = Inr (Some (ex_db [ex_med ''m1'' ''Aspirin'' ''100 mg'' [''08:55''],
                       ex_med ''m2'' ''Ibuprofen'' ''200 mg'' [''08:56'']]),
          ''It's medication time. Please take 200 mg of Ibuprofen.'')"
  by code_simp

text \<open>The sort keys of the two doses of that example.\<close>

lemma query_keys:
  "minutes_from_now (ex_at 8 55 1)
     (dose_entry (ex_db []) ''u1'' (ex_med ''m1'' ''Aspirin'' ''100 mg'' []) (ex_at 8 55 0)) = Some 1
   \<and> minutes_from_now (ex_at 8 55 1)
     (dose_entry (ex_db []) ''u1'' (ex_med ''m2'' ''Ibuprofen'' ''200 mg'' []) (ex_at 8 56 0)) = Some 0"
  by code_simp

text \<open>The scenario with a pending dose due in 5 minutes and a snoozed dose due in 60 minutes:
  the response names the dose due in 5 minutes.\<close>

lemma query_scenario:
  "voice_command
     (Some ((ex_db [ex_med ''m1'' ''Aspirin'' ''100 mg'' [''09:00''],
                    ex_med ''m2'' ''Ibuprofen'' ''200 mg'' [''09:55'']])
              \<lparr>db_doselog := [ex_log ''m2'' (ex_at 9 55 0) ''snoozed'']\<rparr>))
     \<lparr>vc_text = ''What medicine do I take now?'', vc_user_id = ''u1''\<rparr> (ex_at 8 55 0)
   = Inr (Some ((ex_db [ex_med ''m1'' ''Aspirin'' ''100 mg'' [''09:00''],
                    ex_med ''m2'' ''Ibuprofen'' ''200 mg'' [''09:55'']])
              \<lparr>db_doselog := [ex_log ''m2'' (ex_at 9 55 0) ''snoozed'']\<rparr>),
          ''It's medication time. Please take 100 mg of Aspirin.'')"
  by code_simp

section \<open>The compliance calendar\<close>

text \<open>Claim C6: for every day of the window, the entry of that day is missed when the day has
  a stored event with status missed; otherwise taken when it has an event with status taken and
  none with status pending; otherwise pending. The events of a day are those whose
  \<^verbatim>\<open>scheduled_at\<close> is a datetime of that day or a string that the library reads as a datetime of
  that day, whatever the library's reader accepts. The clock is taken to be later than the 30th of
  January of year 1 and earlier than the last day of year 9999, where the date arithmetic of the
  function is defined.\<close>

theorem day_classification:
  assumes "30 < dt_day now" and "dt_day now < MAXORDINAL"
      and "dt_day now - 30 \<le> d" and "d \<le> dt_day now"
  shows "\<exists>cal. caregiver_compliance iso_date (Some db) user_id now = Inr cal
           \<and> cal ! nat (d - (dt_day now - 30)) =
               \<lparr>cal_date = date_isoformat d,
                cal_status =
                  (if 0 < day_count iso_date (filter (\<lambda>lg. log_user_id lg = user_id) (db_doselog db)) d ''missed''
                   then ''missed''
                   else if 0 < day_count iso_date (filter (\<lambda>lg. log_user_id lg = user_id) (db_doselog db)) d ''taken''
                           \<and> day_count iso_date (filter (\<lambda>lg. log_user_id lg = user_id) (db_doselog db)) d ''pending'' = 0
                   then ''taken''
                   else ''pending'')\<rparr>"
  using compliance_entry[OF assms, where iso_date = iso_date and db = db and user_id = user_id]
  unfolding classify_def .

text \<open>A day with a missed event dated by an ISO string and a taken event dated by a datetime is
  classified missed.\<close>

theorem day_classification_witness:
  "\<exists>cal. caregiver_compliance ex_iso_date
            (Some ((ex_db [])\<lparr>db_doselog :=
                     [(ex_log ''m1'' (ex_at 9 0 0) ''missed'')
                        \<lparr>log_scheduled_at := SchedString ''2024-03-04T09:00:00''\<rparr>,
                      ex_log ''m1'' (ex_at 20 0 0) ''taken'']\<rparr>))
            ''u1'' (ex_at 21 0 0) = Inr cal
         \<and> cal ! 30 = \<lparr>cal_date = ''2024-03-04'', cal_status = ''missed''\<rparr>"
proof -
  let ?db = "(ex_db [])\<lparr>db_doselog :=
                     [(ex_log ''m1'' (ex_at 9 0 0) ''missed'')
                        \<lparr>log_scheduled_at := SchedString ''2024-03-04T09:00:00''\<rparr>,
                      ex_log ''m1'' (ex_at 20 0 0) ''taken'']\<rparr>"
  have d: "dt_day (ex_at 21 0 0) = 738949" by (simp add: ex_at_def)
  have h: "30 < dt_day (ex_at 21 0 0)" "dt_day (ex_at 21 0 0) < MAXORDINAL"
    "dt_day (ex_at 21 0 0) - 30 \<le> 738949" "738949 \<le> dt_day (ex_at 21 0 0)"
    by (simp_all add: d MAXORDINAL_def)
  have c: "0 < day_count ex_iso_date (filter (\<lambda>lg. log_user_id lg = ''u1'') (db_doselog ?db))
                 738949 ''missed''"
    by code_simp
  have i: "date_isoformat 738949 = ''2024-03-04''" by code_simp
  have n: "nat (738949 - (dt_day (ex_at 21 0 0) - 30)) = 30" by (simp add: d)
  from day_classification[OF h, where iso_date = ex_iso_date and db = ?db and user_id = "''u1''"]
  show ?thesis
    unfolding n i using c by simp
qed

text \<open>Claim C7: the calendar has exactly 31 entries, whose dates are the ISO dates of the days
  from 30 days before today through today, in ascending order, each with a status among taken,
  missed and pending. The clock is taken to be later than the 30th of January of year 1 and
  earlier than the last day of year 9999.\<close>

theorem calendar_shape:
  assumes "30 < dt_day now" and "dt_day now < MAXORDINAL"
  shows "\<exists>cal. caregiver_compliance iso_date (Some db) user_id now = Inr cal
           \<and> length cal = 31
           \<and> map cal_date cal = map date_isoformat [dt_day now - 30..dt_day now]
           \<and> (\<forall>e \<in> set cal. cal_status e \<in> {''taken'', ''missed'', ''pending''})"
proof -
  define days where "days = [dt_day now - 30..dt_day now]"
  define logs where "logs = filter (\<lambda>lg. log_user_id lg = user_id) (db_doselog db)"
  define cal where
    "cal = map (\<lambda>k. \<lparr>cal_date = date_isoformat k, cal_status = classify iso_date logs k\<rparr>) days"
  have run: "caregiver_compliance iso_date (Some db) user_id now = Inr cal"
    unfolding cal_def days_def logs_def using assms by (rule caregiver_compliance_eq)
  have "length days = nat (dt_day now - (dt_day now - 30) + 1)"
    unfolding days_def by (rule length_upto)
  then have len: "length cal = 31" by (simp add: cal_def)
  have dates: "map cal_date cal = map date_isoformat days"
    by (simp add: cal_def comp_def)
  have stat: "\<forall>e \<in> set cal. cal_status e \<in> {''taken'', ''missed'', ''pending''}"
    by (auto simp: cal_def classify_def)
  show ?thesis using run len dates stat unfolding days_def by blast
qed

text \<open>On the 4th of March 2024 the calendar starts at the 3rd of February 2024.\<close>

theorem calendar_shape_witness:
  "\<exists>cal. caregiver_compliance ex_iso_date (Some (ex_db [])) ''u1'' (ex_at 21 0 0) = Inr cal
         \<and> length cal = 31
         \<and> map cal_date cal = map date_isoformat [dt_day (ex_at 21 0 0) - 30..dt_day (ex_at 21 0 0)]
         \<and> hd (map cal_date cal) = ''2024-02-03''"
proof -
  have d: "dt_day (ex_at 21 0 0) = 738949" by (simp add: ex_at_def)
  have h: "30 < dt_day (ex_at 21 0 0)" "dt_day (ex_at 21 0 0) < MAXORDINAL"
    by (simp_all add: d MAXORDINAL_def)
  have i: "date_isoformat 738919 = ''2024-02-03''" by code_simp
  have u: "[738949 - 30..738949] = 738919 # [738920..738949]" by (subst upto_rec1) simp_all
  from calendar_shape[OF h, where iso_date = ex_iso_date and db = "ex_db []" and user_id = "''u1''"] obtain cal where
    c: "caregiver_compliance ex_iso_date (Some (ex_db [])) ''u1'' (ex_at 21 0 0) = Inr cal" "length cal = 31"
       "map cal_date cal = map date_isoformat [dt_day (ex_at 21 0 0) - 30..dt_day (ex_at 21 0 0)]"
    by blast
  have "hd (map cal_date cal) = ''2024-02-03''"
    unfolding c(3) d by (simp only: u list.map list.sel i)
  with c show ?thesis by blast
qed

text \<open>Claim C10: a day of the window all of whose stored events (at least one; dated by a
  datetime or by a string the library's reader accepts) have status snoozed is classified pending, which is the entry that the same day gets from a store with no
  events at all, although the tally of the day has a positive count under the key snoozed.\<close>

theorem all_snoozed_day_is_pending:
  assumes "30 < dt_day now" and "dt_day now < MAXORDINAL"
      and "dt_day now - 30 \<le> d" and "d \<le> dt_day now"
      and "\<exists>lg \<in> set (db_doselog db). log_user_id lg = user_id \<and> log_day iso_date lg = Some d"
      and "\<forall>lg \<in> set (db_doselog db).
             log_user_id lg = user_id \<and> log_day iso_date lg = Some d \<longrightarrow> log_status lg = Some ''snoozed''"
  shows "\<exists>cal cal0.
           caregiver_compliance iso_date (Some db) user_id now = Inr cal
         \<and> caregiver_compliance iso_date (Some (db\<lparr>db_doselog := []\<rparr>)) user_id now = Inr cal0
         \<and> cal ! nat (d - (dt_day now - 30)) = \<lparr>cal_date = date_isoformat d, cal_status = ''pending''\<rparr>
         \<and> cal0 ! nat (d - (dt_day now - 30)) = cal ! nat (d - (dt_day now - 30))
         \<and> 0 < dict_get (dict_get (tally_logs iso_date (filter (\<lambda>lg. log_user_id lg = user_id) (db_doselog db))
                                     Map.empty) d empty_tally) ''snoozed'' 0"
proof -
  define logs where "logs = filter (\<lambda>lg. log_user_id lg = user_id) (db_doselog db)"
  have st: "status_of lg = ''snoozed''" if "lg \<in> set logs" "log_day iso_date lg = Some d" for lg
    using that assms(6) by (auto simp: logs_def status_of_def)
  have zero: "day_count iso_date logs d s = 0" if "s \<noteq> ''snoozed''" for s
  proof -
    have "filter (\<lambda>lg. log_day iso_date lg = Some d \<and> status_of lg = s) logs = []"
      using st that by (auto simp: filter_empty_conv)
    then show ?thesis by (simp add: day_count_def)
  qed
  have pos: "0 < day_count iso_date logs d ''snoozed''"
  proof -
    from assms(5) obtain lg where lg: "lg \<in> set logs" "log_day iso_date lg = Some d"
      by (auto simp: logs_def)
    then have "lg \<in> set (filter (\<lambda>lg. log_day iso_date lg = Some d \<and> status_of lg = ''snoozed'') logs)"
      using st by simp
    then have "filter (\<lambda>lg. log_day iso_date lg = Some d \<and> status_of lg = ''snoozed'') logs \<noteq> []"
      by (metis empty_iff list.set(1))
    then show ?thesis by (simp add: day_count_def)
  qed
  have c: "classify iso_date logs d = ''pending''" by (simp add: classify_def zero)
  have c0: "classify iso_date [] d = ''pending''" by (simp add: classify_def day_count_def)
  have e: "caregiver_compliance iso_date (Some db) user_id now =
             Inr (map (\<lambda>k. \<lparr>cal_date = date_isoformat k, cal_status = classify iso_date logs k\<rparr>)
                    [dt_day now - 30..dt_day now])"
    unfolding logs_def using assms(1,2) by (rule caregiver_compliance_eq)
  have e0: "caregiver_compliance iso_date (Some (db\<lparr>db_doselog := []\<rparr>)) user_id now =
             Inr (map (\<lambda>k. \<lparr>cal_date = date_isoformat k, cal_status = classify iso_date [] k\<rparr>)
                    [dt_day now - 30..dt_day now])"
    using caregiver_compliance_eq[OF assms(1,2), where iso_date = iso_date
        and db = "db\<lparr>db_doselog := []\<rparr>" and user_id = user_id] by simp
  have n: "map (\<lambda>k. \<lparr>cal_date = date_isoformat k, cal_status = classify iso_date logs k\<rparr>)
             [dt_day now - 30..dt_day now] ! nat (d - (dt_day now - 30))
           = \<lparr>cal_date = date_isoformat d, cal_status = classify iso_date logs d\<rparr>"
    using assms(3,4) by (rule nth_calendar)
  have n0: "map (\<lambda>k. \<lparr>cal_date = date_isoformat k, cal_status = classify iso_date [] k\<rparr>)
             [dt_day now - 30..dt_day now] ! nat (d - (dt_day now - 30))
           = \<lparr>cal_date = date_isoformat d, cal_status = classify iso_date [] d\<rparr>"
    using assms(3,4) by (rule nth_calendar)
  have t: "0 < dict_get (dict_get (tally_logs iso_date logs Map.empty) d empty_tally) ''snoozed'' 0"
    using pos by (simp add: tally_from_empty)
  show ?thesis
    using e e0 n n0 t c c0 unfolding logs_def by simp
qed

text \<open>A day with two snoozed events, one dated by a datetime and one by an ISO string, next to
  the same day in an empty store.\<close>

theorem all_snoozed_day_is_pending_witness:
  "\<exists>cal cal0.
      caregiver_compliance ex_iso_date
        (Some ((ex_db [])\<lparr>db_doselog :=
                 [ex_log ''m1'' (ex_at 9 0 0) ''snoozed'',
                  (ex_log ''m2'' (ex_at 9 0 0) ''snoozed'')
                     \<lparr>log_scheduled_at := SchedString ''2024-03-04T09:00:00''\<rparr>]\<rparr>))
        ''u1'' (ex_at 21 0 0) = Inr cal
    \<and> caregiver_compliance ex_iso_date (Some (ex_db [])) ''u1'' (ex_at 21 0 0) = Inr cal0
    \<and> cal ! 30 = \<lparr>cal_date = ''2024-03-04'', cal_status = ''pending''\<rparr>
    \<and> cal0 ! 30 = cal ! 30"
proof -
  let ?db = "(ex_db [])\<lparr>db_doselog :=
                 [ex_log ''m1'' (ex_at 9 0 0) ''snoozed'',
                  (ex_log ''m2'' (ex_at 9 0 0) ''snoozed'')
                     \<lparr>log_scheduled_at := SchedString ''2024-03-04T09:00:00''\<rparr>]\<rparr>"
  have d: "dt_day (ex_at 21 0 0) = 738949" by (simp add: ex_at_def)
  have h: "30 < dt_day (ex_at 21 0 0)" "dt_day (ex_at 21 0 0) < MAXORDINAL"
    "dt_day (ex_at 21 0 0) - 30 \<le> 738949" "738949 \<le> dt_day (ex_at 21 0 0)"
    by (simp_all add: d MAXORDINAL_def)
  have h5: "\<exists>lg \<in> set (db_doselog ?db). log_user_id lg = ''u1'' \<and> log_day ex_iso_date lg = Some 738949"
    by (simp add: ex_db_def ex_log_def ex_at_def log_day_def)
  have h6: "\<forall>lg \<in> set (db_doselog ?db).
              log_user_id lg = ''u1'' \<and> log_day ex_iso_date lg = Some 738949
                \<longrightarrow> log_status lg = Some ''snoozed''"
    by (simp add: ex_db_def ex_log_def)
  have i: "date_isoformat 738949 = ''2024-03-04''" by code_simp
  have n: "nat (738949 - (dt_day (ex_at 21 0 0) - 30)) = 30" by (simp add: d)
  have z: "?db\<lparr>db_doselog := []\<rparr> = ex_db []" by (simp add: ex_db_def)
  from all_snoozed_day_is_pending[OF h h5 h6] show ?thesis
    unfolding n i z by blast
qed

end
